theory Spec2Isabelle
  imports Main "HOL-Library.Sublist"
begin

section \<open>The outside world of communitybot\<close>

text \<open>
  The bot of \<^verbatim>\<open>communitybot.py\<close> talks to a Steem node (head block, blocks, operations,
  posts), submits replies and votes, keeps two tables in a database and two files under
  \<^verbatim>\<open>~/.communitybot\<close>. Exceptions are values: a function of the bot returns
  \<open>(error + 'a) \<times> world\<close>, \<open>Inl e\<close> when the Python raises \<open>e\<close>. The world comes back
  in both cases, since what was sent or written before a raise stays sent or written.
\<close>

datatype error =
    TypeError
  | KeyError
  | FileNotFoundError
  | RecursionError
  | PostDoesNotExist
  | RPCError

datatype level = INFO | ERROR

datatype arg = ArgInt int | ArgStr string

text \<open>A post as \<^verbatim>\<open>steem.post.Post\<close> exposes it to the bot: \<^verbatim>\<open>post["author"]\<close>,
  \<^verbatim>\<open>post["permlink"]\<close>, \<^verbatim>\<open>post["body"]\<close>, \<^verbatim>\<open>post["depth"]\<close> (read by
  \<^verbatim>\<open>is_main_post\<close>) and \<^verbatim>\<open>post.root_identifier\<close>. An identifier
  \<^verbatim>\<open>@author/permlink\<close> is the pair of its two parts.\<close>

type_synonym post_id = "string \<times> string"

record post =
  author :: string
  permlink :: string
  body :: string
  depth :: nat
  root_identifier :: post_id

text \<open>A row of the tables \<^verbatim>\<open>welcome\<close> and \<^verbatim>\<open>upvote\<close>.\<close>

record row =
  row_author :: string
  row_permlink :: string
  created_at :: string

text \<open>One element of \<^verbatim>\<open>get_ops_in_block\<close>: \<^verbatim>\<open>operation["op"][0:2]\<close> is the operation
  type and its raw data, of which \<^verbatim>\<open>Post(raw_data)\<close> reads the author and the permlink.\<close>

record raw_data =
  raw_author :: string
  raw_permlink :: string

type_synonym operation = "string \<times> raw_data"

text \<open>A Python dict of the node's answers is the list of its items. \<^verbatim>\<open>get_block\<close> answers
  \<^verbatim>\<open>None\<close> or a dict, of which the bot reads the keys only.\<close>

type_synonym props = "(string \<times> int) list"

type_synonym block_data = "string list option"

text \<open>Everything the bot does to the outside is an event of the trace, in the order it
  happens.\<close>

datatype event =
    GetProps
  | GetConfig
  | GetBlock int
  | GetOps int
  | GetContent post_id
  | Log level string "arg list"
  | Sleep int
  | DumpCheckpoint int
  | DumpState props
  | Reply post_id string string
  | Vote post_id int string
  | Insert string row

record world =
  trace :: "event list"
  checkpoint_file :: "int option"
  state_file :: "props option"
  tables :: "string \<Rightarrow> row list"

text \<open>
  The configuration and the answers of the outside. An answer may change from one call to
  the next (the head grows, a block that was missing arrives, a post is deleted), so each
  is a function of the moment of the call, which is the number of events so far.
  \<open>welcome_message\<close> is the content of the file \<^verbatim>\<open>config["welcome_message"]\<close>, \<open>None\<close>
  when there is no such file. \<open>stack_limit\<close> is how deep \<^verbatim>\<open>properties\<close> can re-enter
  itself before the interpreter raises RecursionError.
\<close>

record env =
  account :: string
  blacklisted_users :: "string list"
  welcome_message :: "string option"
  stack_limit :: nat
  props_at :: "nat \<Rightarrow> props option"
  config_at :: "nat \<Rightarrow> (string \<times> int) list"
  block_at :: "nat \<Rightarrow> int \<Rightarrow> block_data"
  ops_at :: "nat \<Rightarrow> int \<Rightarrow> operation list"
  content_at :: "nat \<Rightarrow> post_id \<Rightarrow> post option"
  reply_at :: "nat \<Rightarrow> post_id \<Rightarrow> error option"
  vote_at :: "nat \<Rightarrow> post_id \<Rightarrow> error + bool"
  now_at :: "nat \<Rightarrow> string"

definition emit :: "event \<Rightarrow> world \<Rightarrow> world" where
  "emit e w = w\<lparr>trace := trace w @ [e]\<rparr>"

definition moment :: "world \<Rightarrow> nat" where
  "moment w = length (trace w)"

text \<open>Python's \<^verbatim>\<open>not d\<close> for \<^verbatim>\<open>None\<close> or a dict: true for \<^verbatim>\<open>None\<close> and for the
  empty dict.\<close>

fun falsy :: "'a list option \<Rightarrow> bool" where
  "falsy None = True"
| "falsy (Some d) = (d = [])"

section \<open>Durable state: the two files\<close>

definition dump_state :: "props \<Rightarrow> world \<Rightarrow> world" where
  "dump_state data w = emit (DumpState data) (w\<lparr>state_file := Some data\<rparr>)"

definition dump_checkpoint :: "int \<Rightarrow> world \<Rightarrow> world" where
  "dump_checkpoint block_num w =
     emit (DumpCheckpoint block_num) (w\<lparr>checkpoint_file := Some block_num\<rparr>)"

text \<open>\<^verbatim>\<open>load_checkpoint\<close>: the file holds \<^verbatim>\<open>str(block_num)\<close> and \<^verbatim>\<open>int\<close> reads the
  same number back, so the file is the number, \<open>None\<close> when absent (FileNotFoundError).
  Then the fallback is written and the file is loaded again, which now reads the
  fallback.\<close>

definition load_checkpoint :: "int \<Rightarrow> world \<Rightarrow> int \<times> world" where
  "load_checkpoint fallback_block_num w =
     (case checkpoint_file w of
        Some n \<Rightarrow> (n, w)
      | None \<Rightarrow>
          (let w1 = dump_checkpoint fallback_block_num w
           in (case checkpoint_file w1 of
                 Some n \<Rightarrow> (n, w1)
               | None \<Rightarrow> (fallback_block_num, w1))))"

section \<open>The ledger client\<close>

text \<open>\<^verbatim>\<open>properties\<close> calls itself until the node answers something truthy. The first
  argument is the depth left.\<close>

fun properties :: "nat \<Rightarrow> env \<Rightarrow> world \<Rightarrow> (error + props) \<times> world" where
  "properties 0 env w = (Inl RecursionError, w)"
| "properties (Suc d) env w =
     (let props = props_at env (moment w);
          again = properties d env
                    (emit (Log INFO ''Couldnt get block num. Retrying.'' []) (emit GetProps w))
      in case props of
           None \<Rightarrow> again
         | Some p \<Rightarrow> if p = [] then again else (Inr p, emit GetProps w))"

definition last_block_num :: "env \<Rightarrow> world \<Rightarrow> (error + int) \<times> world" where
  "last_block_num env w =
     (case properties (stack_limit env) env w of
        (Inl e, w1) \<Rightarrow> (Inl e, w1)
      | (Inr p, w1) \<Rightarrow>
          (case map_of p ''head_block_number'' of
             None \<Rightarrow> (Inl KeyError, w1)
           | Some n \<Rightarrow> (Inr n, w1)))"

definition block_interval :: "env \<Rightarrow> world \<Rightarrow> (error + int) \<times> world" where
  "block_interval env w =
     (let config = config_at env (moment w); w1 = emit GetConfig w
      in case map_of config ''STEEMIT_BLOCK_INTERVAL'' of
           None \<Rightarrow> (Inl KeyError, w1)
         | Some i \<Rightarrow> (Inr i, w1))"

text \<open>\<^verbatim>\<open>Post(x)\<close> fetches the content behind an identifier and raises PostDoesNotExist
  when there is none.\<close>

definition Post :: "env \<Rightarrow> post_id \<Rightarrow> world \<Rightarrow> (error + post) \<times> world" where
  "Post env ident w =
     (case content_at env (moment w) ident of
        None \<Rightarrow> (Inl PostDoesNotExist, emit (GetContent ident) w)
      | Some p \<Rightarrow> (Inr p, emit (GetContent ident) w))"

definition is_main_post :: "post \<Rightarrow> bool" where
  "is_main_post p = (depth p = 0)"

definition identifier_of :: "post \<Rightarrow> post_id" where
  "identifier_of p = (author p, permlink p)"

section \<open>The addressed-command pattern\<close>

text \<open>
  \<^verbatim>\<open>re.findall("@%s\s!(welcome)" % self.account, post["body"])\<close>. The account goes into
  the pattern as it is. Account names of the chain are made of \<^verbatim>\<open>a-z\<close>, \<^verbatim>\<open>0-9\<close>,
  \<^verbatim>\<open>-\<close> and \<^verbatim>\<open>.\<close>, of which only the dot is special in a pattern: it stands for any
  character but a newline. \<^verbatim>\<open>\s\<close> is one whitespace character. Every atom of this
  pattern takes exactly one character. Characters are code points below 256.
\<close>

datatype re_atom = Lit char | AnyChar | Whitespace

definition is_space :: "char \<Rightarrow> bool" where
  "is_space c = (of_char c \<in> {9, 10, 11, 12, 13, 28, 29, 30, 31, 32, 133, 160 :: nat})"

fun atom_matches :: "re_atom \<Rightarrow> char \<Rightarrow> bool" where
  "atom_matches (Lit a) c = (a = c)"
| "atom_matches AnyChar c = (c \<noteq> CHR 0x0A)"
| "atom_matches Whitespace c = is_space c"

definition welcome_pattern :: "string \<Rightarrow> re_atom list" where
  "welcome_pattern acct =
     Lit CHR ''@'' # map (\<lambda>c. if c = CHR ''.'' then AnyChar else Lit c) acct
       @ Whitespace # map Lit ''!welcome''"

fun match_here :: "re_atom list \<Rightarrow> string \<Rightarrow> bool" where
  "match_here [] s = True"
| "match_here (a # as) [] = False"
| "match_here (a # as) (c # cs) = (atom_matches a c \<and> match_here as cs)"

text \<open>\<^verbatim>\<open>findall\<close> scans from the left and returns group 1 of every match, the next
  search starting behind the match. The first argument counts the characters of the last
  match still to pass.\<close>

fun findall_from :: "nat \<Rightarrow> re_atom list \<Rightarrow> string \<Rightarrow> string list" where
  "findall_from k pat [] = []"
| "findall_from (Suc k) pat (c # cs) = findall_from k pat cs"
| "findall_from 0 pat (c # cs) =
     (if match_here pat (c # cs)
      then ''welcome'' # findall_from (length pat - 1) pat cs
      else findall_from 0 pat cs)"

definition findall :: "string \<Rightarrow> string \<Rightarrow> string list" where
  "findall acct s = findall_from 0 (welcome_pattern acct) s"

text \<open>\<^verbatim>\<open>str.replace(old, new)\<close>, every occurrence from the left, not overlapping.\<close>

fun replace_from :: "nat \<Rightarrow> string \<Rightarrow> string \<Rightarrow> string \<Rightarrow> string" where
  "replace_from k old new [] = []"
| "replace_from (Suc k) old new (c # cs) = replace_from k old new cs"
| "replace_from 0 old new (c # cs) =
     (if prefix old (c # cs)
      then new @ replace_from (length old - 1) old new cs
      else c # replace_from 0 old new cs)"

definition replace :: "string \<Rightarrow> string \<Rightarrow> string \<Rightarrow> string" where
  "replace old new s =
     (if old = [] then new @ concat (map (\<lambda>c. c # new) s) else replace_from 0 old new s)"

section \<open>The dedup ledger and the action client\<close>

definition find_one :: "(row \<Rightarrow> bool) \<Rightarrow> row list \<Rightarrow> row option" where
  "find_one f rows = List.find f rows"

definition insert_row :: "string \<Rightarrow> row \<Rightarrow> world \<Rightarrow> world" where
  "insert_row t r w = emit (Insert t r) (w\<lparr>tables := (tables w)(t := tables w t @ [r])\<rparr>)"

definition reply :: "env \<Rightarrow> post \<Rightarrow> string \<Rightarrow> string \<Rightarrow> world \<Rightarrow> (error + unit) \<times> world" where
  "reply env p text as w =
     (case reply_at env (moment w) (identifier_of p) of
        Some e \<Rightarrow> (Inl e, emit (Reply (identifier_of p) text as) w)
      | None \<Rightarrow> (Inr (), emit (Reply (identifier_of p) text as) w))"

definition full_link :: "post \<Rightarrow> string" where
  "full_link p = ''@'' @ author p @ ''/'' @ permlink p"

definition upvote :: "env \<Rightarrow> post \<Rightarrow> world \<Rightarrow> (error + unit) \<times> world" where
  "upvote env p w =
     (case find_one (\<lambda>r. row_author r = author p \<and> row_permlink r = permlink p)
             (tables w ''upvote'') of
        Some already_upvoted \<Rightarrow>
          (Inr (), emit (Log INFO ''Already voted. Skipping. %s'' [ArgStr (full_link p)]) w)
      | None \<Rightarrow>
          (let resp = vote_at env (moment w) (identifier_of p);
               w1 = emit (Vote (identifier_of p) 80 (account env)) w
           in case resp of
                Inl e \<Rightarrow> (Inl e, w1)
              | Inr ok \<Rightarrow>
                  if \<not> ok
                  then (Inr (), emit (Log ERROR ''Failed upvoting. %s'' [ArgStr (full_link p)]) w1)
                  else (Inr (), w1)))"

section \<open>The command processor\<close>

text \<open>The variable \<^verbatim>\<open>already_welcomed\<close> of \<^verbatim>\<open>handle_command\<close>:
  \<^verbatim>\<open>self.get_table('welcome').find_one(author=main_post["author"])\<close>.\<close>

definition already_welcomed :: "world \<Rightarrow> post \<Rightarrow> row option" where
  "already_welcomed w main_post =
     find_one (\<lambda>r. row_author r = author main_post) (tables w ''welcome'')"

definition handle_command :: "env \<Rightarrow> post \<Rightarrow> world \<Rightarrow> (error + unit) \<times> world" where
  "handle_command env p w =
     (if author p \<in> set (blacklisted_users env)
      then (Inr (), emit (Log INFO ''User on blacklist. (%s). Skipping'' [ArgStr (permlink p)]) w)
      else if findall (account env) (body p) \<noteq> []
      then
        (case Post env (root_identifier p) w of
           (Inl e, w1) \<Rightarrow> (Inl e, w1)
         | (Inr main_post, w1) \<Rightarrow>
             (case already_welcomed w1 main_post of
                Some found \<Rightarrow>
                  (Inr (), emit (Log INFO ''This user: %s already welcomed. Skipping''
                                   [ArgStr (author main_post)]) w1)
              | None \<Rightarrow>
                  (case welcome_message env of
                     None \<Rightarrow> (Inl FileNotFoundError, w1)
                   | Some template \<Rightarrow>
                       (case reply env main_post
                               (replace ''$username'' (author main_post) template)
                               (account env) w1 of
                          (Inl e, w2) \<Rightarrow> (Inl e, w2)
                        | (Inr u, w2) \<Rightarrow>
                            if \<not> is_main_post main_post
                            then (Inr (), emit (Log INFO ''Skipping. Not a main post.'' []) w2)
                            else
                              (case upvote env main_post w2 of
                                 (Inl e, w3) \<Rightarrow> (Inl e, w3)
                               | (Inr u', w3) \<Rightarrow>
                                   (let w4 = emit (Log INFO ''Replied and upvoted user: %s''
                                                     [ArgStr (author main_post)]) w3
                                    in (Inr (),
                                        insert_row ''welcome''
                                          \<lparr>row_author = author main_post,
                                           row_permlink = permlink main_post,
                                           created_at = now_at env (moment w4)\<rparr> w4)))))))
      else (Inr (), w))"

text \<open>One turn of the loop of \<^verbatim>\<open>check_block\<close>. Only PostDoesNotExist is caught.\<close>

definition check_op :: "env \<Rightarrow> operation \<Rightarrow> world \<Rightarrow> (error + unit) \<times> world" where
  "check_op env operation w =
     (case operation of (operation_type, raw) \<Rightarrow>
        if operation_type = ''comment''
        then
          (case Post env (raw_author raw, raw_permlink raw) w of
             (Inl e, w1) \<Rightarrow> if e = PostDoesNotExist then (Inr (), w1) else (Inl e, w1)
           | (Inr p, w1) \<Rightarrow>
               if is_main_post p then (Inr (), w1)
               else if sublist (''@'' @ account env) (body p) then handle_command env p w1
               else (Inr (), w1))
        else (Inr (), w))"

fun check_ops :: "env \<Rightarrow> operation list \<Rightarrow> world \<Rightarrow> (error + unit) \<times> world" where
  "check_ops env [] w = (Inr (), w)"
| "check_ops env (operation # rest) w =
     (case check_op env operation w of
        (Inl e, w1) \<Rightarrow> (Inl e, w1)
      | (Inr u, w1) \<Rightarrow> check_ops env rest w1)"

definition check_block :: "env \<Rightarrow> int \<Rightarrow> world \<Rightarrow> (error + unit) \<times> world" where
  "check_block env block_num w =
     check_ops env (ops_at env (moment w) block_num) (emit (GetOps block_num) w)"

section \<open>The ingestion loop\<close>

text \<open>What \<^verbatim>\<open>process_block\<close> does below its \<^verbatim>\<open>if not block_data:\<close> block. On
  \<^verbatim>\<open>None\<close>, \<^verbatim>\<open>'transactions' not in block_data\<close> raises TypeError.\<close>

definition process_rest :: "env \<Rightarrow> int \<Rightarrow> block_data \<Rightarrow> world \<Rightarrow> (error + unit) \<times> world" where
  "process_rest env block_num block_data w =
     (let w1 = emit (Log INFO ''Processing block: %s'' [ArgInt block_num]) w
      in case block_data of
           None \<Rightarrow> (Inl TypeError, w1)
         | Some keys \<Rightarrow>
             if ''transactions'' \<notin> set keys then (Inr (), w1)
             else
               (case check_block env block_num w1 of
                  (Inl e, w2) \<Rightarrow> (Inl e, w2)
                | (Inr u, w2) \<Rightarrow>
                    (case properties (stack_limit env) env w2 of
                       (Inl e, w3) \<Rightarrow> (Inl e, w3)
                     | (Inr p, w3) \<Rightarrow> (Inr (), dump_state p w3))))"

function process_block :: "env \<Rightarrow> int \<Rightarrow> int \<Rightarrow> world \<Rightarrow> (error + unit) \<times> world" where
  "process_block env block_num retry_count w =
     (if falsy (block_at env (moment w) block_num)
      then
        if retry_count > 3
        then (Inr (), emit (Log ERROR ''Retried 3 times to get this block: %s Skipping.''
                              [ArgInt block_num]) (emit (GetBlock block_num) w))
        else
          (case process_block env block_num (retry_count + 1)
                  (emit (Log ERROR ''Couldnt read the block: %s. Retrying.'' [ArgInt block_num])
                     (emit (GetBlock block_num) w)) of
             (Inl e, w2) \<Rightarrow> (Inl e, w2)
           | (Inr u, w2) \<Rightarrow>
               process_rest env block_num (block_at env (moment w) block_num) w2)
      else process_rest env block_num (block_at env (moment w) block_num)
             (emit (GetBlock block_num) w))"
  by pat_completeness auto
termination
  by (relation "measure (\<lambda>(env, block_num, retry_count, w). nat (4 - retry_count))") auto

declare process_block.simps [simp del]

text \<open>
  \<^verbatim>\<open>run\<close> never returns: \<^verbatim>\<open>while True\<close> around the catching-up loop and the sleep. Each
  turn of either loop starts by reading the head for the inner condition; when it holds
  the next block is processed and the checkpoint saved, when not the bot sleeps and the
  condition is read again. \<open>run_loop\<close> makes that many readings of the condition and
  answers \<open>None\<close> when the bot is still running after them, \<open>Some e\<close> when an exception
  \<open>e\<close> ended it.
\<close>

fun run_loop :: "nat \<Rightarrow> env \<Rightarrow> int \<Rightarrow> world \<Rightarrow> error option \<times> world" where
  "run_loop 0 env last_block w = (None, w)"
| "run_loop (Suc n) env last_block w =
     (case last_block_num env w of
        (Inl e, w1) \<Rightarrow> (Some e, w1)
      | (Inr head, w1) \<Rightarrow>
          if head - last_block > 0
          then
            (case process_block env (last_block + 1) 0 w1 of
               (Inl e, w2) \<Rightarrow> (Some e, w2)
             | (Inr u, w2) \<Rightarrow>
                 run_loop n env (last_block + 1) (dump_checkpoint (last_block + 1) w2))
          else
            (case block_interval env w1 of
               (Inl e, w2) \<Rightarrow> (Some e, w2)
             | (Inr seconds, w2) \<Rightarrow>
                 run_loop n env last_block
                   (emit (Sleep seconds)
                      (emit (Log INFO ''Sleeping for %s seconds.'' [ArgInt seconds]) w2))))"

definition run :: "env \<Rightarrow> int option \<Rightarrow> nat \<Rightarrow> world \<Rightarrow> error option \<times> world" where
  "run env start_from n w =
     (case start_from of
        None \<Rightarrow>
          (case last_block_num env w of
             (Inl e, w1) \<Rightarrow> (Some e, w1)
           | (Inr head, w1) \<Rightarrow>
               (case load_checkpoint head w1 of (last_block, w2) \<Rightarrow>
                  run_loop n env last_block
                    (emit (Log INFO ''Last processed block: %s'' [ArgInt last_block]) w2)))
      | Some last_block \<Rightarrow> run_loop n env last_block w)"

definition listen :: "env \<Rightarrow> nat \<Rightarrow> world \<Rightarrow> error option \<times> world" where
  "listen env n w = run env None n (emit (Log INFO ''Starting TX listener...'' []) w)"

section \<open>Observations on the trace\<close>

text \<open>\<open>emits P w w'\<close>: the world \<open>w'\<close> has the trace of \<open>w\<close> and, behind it, only events
  that satisfy \<open>P\<close>.\<close>

definition emits :: "(event \<Rightarrow> bool) \<Rightarrow> world \<Rightarrow> world \<Rightarrow> bool" where
  "emits P w w' = (\<exists>evs. trace w' = trace w @ evs \<and> list_all P evs)"

text \<open>The sequence numbers fetched and the checkpoints saved, in the order of the trace.\<close>

fun fetch_of :: "event \<Rightarrow> int list" where
  "fetch_of (GetBlock n) = [n]"
| "fetch_of e = []"

fun save_of :: "event \<Rightarrow> int list" where
  "save_of (DumpCheckpoint n) = [n]"
| "save_of e = []"

definition fetched :: "event list \<Rightarrow> int list" where
  "fetched evs = concat (map fetch_of evs)"

definition saved :: "event list \<Rightarrow> int list" where
  "saved evs = concat (map save_of evs)"

text \<open>What processing one block may emit: fetches of that block only, no checkpoint, no
  sleep.\<close>

fun block_event :: "int \<Rightarrow> event \<Rightarrow> bool" where
  "block_event n (GetBlock m) = (m = n)"
| "block_event n (DumpCheckpoint m) = False"
| "block_event n (Sleep s) = False"
| "block_event n e = True"

fun is_error :: "event \<Rightarrow> bool" where
  "is_error (Log ERROR s a) = True"
| "is_error e = False"

text \<open>A reply to, or a vote on, a post of the author \<open>a\<close>.\<close>

fun acts_on :: "string \<Rightarrow> event \<Rightarrow> bool" where
  "acts_on a (Reply i b as) = (fst i = a)"
| "acts_on a (Vote i x as) = (fst i = a)"
| "acts_on a e = False"

fun is_content_read :: "event \<Rightarrow> bool" where
  "is_content_read (GetContent i) = True"
| "is_content_read e = False"

text \<open>The operations \<^verbatim>\<open>check_block\<close> hands to \<^verbatim>\<open>handle_command\<close> when their post is
  fetched at the moment \<open>t\<close>: comments whose post exists, is not a main post and mentions
  the account.\<close>

definition addressed :: "env \<Rightarrow> nat \<Rightarrow> operation \<Rightarrow> bool" where
  "addressed env t operation =
     (fst operation = ''comment'' \<and>
      (case content_at env t (raw_author (snd operation), raw_permlink (snd operation)) of
         None \<Rightarrow> False
       | Some p \<Rightarrow> \<not> is_main_post p \<and> sublist (''@'' @ account env) (body p)))"

section \<open>A scenario: head 100, checkpoint 95, a welcome command in block 98\<close>

definition root_post :: post where
  "root_post = \<lparr>author = ''alice'', permlink = ''intro'', body = ''Hello, I am new here.'',
     depth = 0, root_identifier = (''alice'', ''intro'')\<rparr>"

definition command_post :: post where
  "command_post = \<lparr>author = ''carol'', permlink = ''re-intro'',
     body = ''hello @bot !welcome friend'', depth = 1, root_identifier = (''alice'', ''intro'')\<rparr>"

definition demo_env :: env where
  "demo_env = \<lparr>account = ''bot'', blacklisted_users = [''spammer''],
     welcome_message = Some ''Welcome to the community, $username!'',
     stack_limit = 1000,
     props_at = (\<lambda>t. Some [(''head_block_number'', 100)]),
     config_at = (\<lambda>t. [(''STEEMIT_BLOCK_INTERVAL'', 3)]),
     block_at = (\<lambda>t n. Some [''block_id'', ''transactions'']),
     ops_at = (\<lambda>t n. if n = 98
                 then [(''comment'', \<lparr>raw_author = ''carol'', raw_permlink = ''re-intro''\<rparr>)]
                 else []),
     content_at = (\<lambda>t i. if i = (''carol'', ''re-intro'') then Some command_post
                     else if i = (''alice'', ''intro'') then Some root_post else None),
     reply_at = (\<lambda>t i. None),
     vote_at = (\<lambda>t i. Inr True),
     now_at = (\<lambda>t. ''2018-02-01 12:00:00'')\<rparr>"

definition spam_post :: post where
  "spam_post = \<lparr>author = ''spammer'', permlink = ''re-intro-2'',
     body = ''@bot !welcome'', depth = 1, root_identifier = (''alice'', ''intro'')\<rparr>"

definition nested_env :: env where
  "nested_env = demo_env\<lparr>content_at := (\<lambda>t i.
     if i = (''carol'', ''re-intro'') then Some command_post
     else if i = (''alice'', ''intro'') then Some (root_post\<lparr>depth := 1\<rparr>) else None)\<rparr>"

definition deleted_env :: env where
  "deleted_env = demo_env\<lparr>content_at := (\<lambda>t i.
     if i = (''carol'', ''re-intro'') then Some command_post else None)\<rparr>"

definition none_env :: env where
  "none_env = demo_env\<lparr>block_at := (\<lambda>t n. None)\<rparr>"

definition empty_env :: env where
  "empty_env = demo_env\<lparr>block_at := (\<lambda>t n. Some [])\<rparr>"

definition root_command_post :: post where
  "root_command_post = \<lparr>author = ''alice'', permlink = ''intro'', body = ''@bot !welcome'',
     depth = 0, root_identifier = (''alice'', ''intro'')\<rparr>"

definition rootcmd_env :: env where
  "rootcmd_env = demo_env\<lparr>
     ops_at := (\<lambda>t n. [(''comment'', \<lparr>raw_author = ''alice'', raw_permlink = ''intro''\<rparr>)]),
     content_at := (\<lambda>t i. if i = (''alice'', ''intro'') then Some root_command_post else None)\<rparr>"

definition welcomed_row :: row where
  "welcomed_row = \<lparr>row_author = ''alice'', row_permlink = ''my-first-post'',
     created_at = ''2018-01-15 08:30:00''\<rparr>"

definition fresh_world :: world where
  "fresh_world = \<lparr>trace = [], checkpoint_file = Some 95, state_file = None,
     tables = (\<lambda>t. [])\<rparr>"

definition welcomed_world :: world where
  "welcomed_world = fresh_world\<lparr>tables := (\<lambda>t. if t = ''welcome'' then [welcomed_row] else [])\<rparr>"

section \<open>Frame and trace lemmas\<close>

lemma emit_simps [simp]:
  "trace (emit e w) = trace w @ [e]"
  "checkpoint_file (emit e w) = checkpoint_file w"
  "state_file (emit e w) = state_file w"
  "tables (emit e w) = tables w"
  by (simp_all add: emit_def)

lemma moment_emit [simp]: "moment (emit e w) = Suc (moment w)"
  by (simp add: moment_def)

lemma emits_refl [simp]: "emits P w w"
  by (simp add: emits_def)

lemma emits_emit: "P e \<Longrightarrow> emits P w w' \<Longrightarrow> emits P w (emit e w')"
  by (auto simp: emits_def)

lemma emits_trans: "emits P w w1 \<Longrightarrow> emits P w1 w2 \<Longrightarrow> emits P w w2"
  by (auto simp: emits_def)

lemma emits_mono: "emits P w w' \<Longrightarrow> (\<And>e. P e \<Longrightarrow> Q e) \<Longrightarrow> emits Q w w'"
  by (auto simp: emits_def list_all_iff)

lemma properties_emits: "(\<And>l s a. P (Log l s a)) \<Longrightarrow> P GetProps \<Longrightarrow> emits P w (snd (properties d env w))"
proof (induction d arbitrary: w)
  case 0
  then show ?case by simp
next
  case (Suc d)
  have step: "emits P w (emit (Log INFO ''Couldnt get block num. Retrying.'' []) (emit GetProps w))"
    using Suc.prems by (simp add: emits_emit)
  show ?case
    using Suc.prems emits_trans [OF step Suc.IH [OF Suc.prems]]
    by (auto simp: Let_def emits_emit split: option.splits)
qed

lemma properties_frame:
  "checkpoint_file (snd (properties d env w)) = checkpoint_file w"
  "tables (snd (properties d env w)) = tables w"
  by (induction d arbitrary: w) (auto simp: Let_def split: option.splits)


lemma last_block_num_emits:
  "(\<And>l s a. P (Log l s a)) \<Longrightarrow> P GetProps \<Longrightarrow> emits P w (snd (last_block_num env w))"
  using properties_emits [of P w "stack_limit env" env]
  by (auto simp: last_block_num_def split: prod.splits sum.splits option.splits)

lemma last_block_num_frame:
  "checkpoint_file (snd (last_block_num env w)) = checkpoint_file w"
  "tables (snd (last_block_num env w)) = tables w"
  using properties_frame [of "stack_limit env" env w]
  by (auto simp: last_block_num_def split: prod.splits sum.splits option.splits)

lemma block_interval_emits: "P GetConfig \<Longrightarrow> emits P w (snd (block_interval env w))"
  by (auto simp: block_interval_def Let_def emits_emit split: option.splits)

lemma block_interval_frame:
  "checkpoint_file (snd (block_interval env w)) = checkpoint_file w"
  "tables (snd (block_interval env w)) = tables w"
  by (auto simp: block_interval_def Let_def split: option.splits)

lemma Post_world [simp]: "snd (Post env i w) = emit (GetContent i) w"
  by (simp add: Post_def split: option.splits)

lemma reply_world [simp]: "snd (reply env p b a w) = emit (Reply (identifier_of p) b a) w"
  by (simp add: reply_def split: option.splits)

lemma upvote_emits:
  assumes "\<And>l s a. P (Log l s a)" "\<And>i x a. P (Vote i x a)" "emits P w w1"
  shows "emits P w (snd (upvote env p w1))"
  by (auto simp: upvote_def Let_def split: option.splits sum.splits intro!: emits_emit assms)

lemma upvote_frame:
  "checkpoint_file (snd (upvote env p w)) = checkpoint_file w"
  "tables (snd (upvote env p w)) = tables w"
  by (auto simp: upvote_def Let_def split: option.splits sum.splits)

lemma insert_row_simps [simp]:
  "trace (insert_row t r w) = trace w @ [Insert t r]"
  "checkpoint_file (insert_row t r w) = checkpoint_file w"
  "tables (insert_row t r w) = (tables w)(t := tables w t @ [r])"
  by (simp_all add: insert_row_def)

lemma emits_insert: "P (Insert t r) \<Longrightarrow> emits P w w' \<Longrightarrow> emits P w (insert_row t r w')"
  by (auto simp: emits_def)

lemma handle_command_emits:
  assumes "\<And>l s a. P (Log l s a)" "\<And>i. P (GetContent i)" "\<And>i b a. P (Reply i b a)"
    "\<And>i x a. P (Vote i x a)" "\<And>r. P (Insert ''welcome'' r)" "emits P w w1"
  shows "emits P w (snd (handle_command env p w1))"
  by (auto simp: handle_command_def Let_def case_prod_unfold
      split: option.splits sum.splits intro!: emits_emit emits_insert upvote_emits assms)

lemma handle_command_frame:
  "checkpoint_file (snd (handle_command env p w)) = checkpoint_file w"
  by (auto simp: handle_command_def Let_def case_prod_unfold upvote_frame
      split: option.splits sum.splits)

lemma check_op_emits:
  assumes "\<And>l s a. P (Log l s a)" "\<And>i. P (GetContent i)" "\<And>i b a. P (Reply i b a)"
    "\<And>i x a. P (Vote i x a)" "\<And>r. P (Insert ''welcome'' r)" "emits P w w1"
  shows "emits P w (snd (check_op env operation w1))"
  by (auto simp: check_op_def case_prod_unfold
      split: sum.splits intro!: emits_emit handle_command_emits assms)

lemma check_op_frame:
  "checkpoint_file (snd (check_op env operation w)) = checkpoint_file w"
  by (auto simp: check_op_def case_prod_unfold handle_command_frame split: sum.splits)

lemma check_ops_emits:
  assumes "\<And>l s a. P (Log l s a)" "\<And>i. P (GetContent i)" "\<And>i b a. P (Reply i b a)"
    "\<And>i x a. P (Vote i x a)" "\<And>r. P (Insert ''welcome'' r)"
  shows "emits P w w1 \<Longrightarrow> emits P w (snd (check_ops env ops w1))"
proof (induction ops arbitrary: w1)
  case Nil
  then show ?case by simp
next
  case (Cons operation rest)
  have "emits P w (snd (check_op env operation w1))"
    using assms Cons.prems by (intro check_op_emits)
  from Cons.IH [OF this] this show ?case
    by (auto simp: case_prod_unfold split: sum.splits)
qed

lemma check_ops_frame:
  "checkpoint_file (snd (check_ops env ops w)) = checkpoint_file w"
  by (induction ops arbitrary: w) (auto simp: case_prod_unfold check_op_frame split: sum.splits)

lemma check_block_emits:
  assumes "\<And>l s a. P (Log l s a)" "\<And>i. P (GetContent i)" "\<And>i b a. P (Reply i b a)"
    "\<And>i x a. P (Vote i x a)" "\<And>r. P (Insert ''welcome'' r)" "\<And>n. P (GetOps n)" "emits P w w1"
  shows "emits P w (snd (check_block env n w1))"
  unfolding check_block_def using assms by (intro check_ops_emits emits_emit)

lemma check_block_frame:
  "checkpoint_file (snd (check_block env n w)) = checkpoint_file w"
  by (simp add: check_block_def check_ops_frame)

lemma demo_env_simps [simp]:
  "account demo_env = ''bot''"
  "blacklisted_users demo_env = [''spammer'']"
  "welcome_message demo_env = Some ''Welcome to the community, $username!''"
  "stack_limit demo_env = 1000"
  "props_at demo_env t = Some [(''head_block_number'', 100)]"
  "config_at demo_env t = [(''STEEMIT_BLOCK_INTERVAL'', 3)]"
  "block_at demo_env t n = Some [''block_id'', ''transactions'']"
  "reply_at demo_env t i = None"
  "vote_at demo_env t i = Inr True"
  "now_at demo_env t = ''2018-02-01 12:00:00''"
  by (simp_all add: demo_env_def)

lemma demo_content [simp]:
  "content_at demo_env t (''carol'', ''re-intro'') = Some command_post"
  "content_at demo_env t (''alice'', ''intro'') = Some root_post"
  by (simp_all add: demo_env_def)

lemma posts_simps [simp]:
  "author command_post = ''carol''" "permlink command_post = ''re-intro''"
  "body command_post = ''hello @bot !welcome friend''"
  "root_identifier command_post = (''alice'', ''intro'')"
  "is_main_post command_post = False"
  "author root_post = ''alice''" "permlink root_post = ''intro''"
  "is_main_post root_post = True"
  by (simp_all add: command_post_def root_post_def is_main_post_def)

lemma fresh_world_simps [simp]:
  "trace fresh_world = []" "checkpoint_file fresh_world = Some 95"
  "tables fresh_world t = []" "moment fresh_world = 0"
  by (simp_all add: fresh_world_def moment_def)

lemma findall_demo [simp]: "findall ''bot'' ''hello @bot !welcome friend'' = [''welcome'']"
  by (simp add: findall_def welcome_pattern_def is_space_def)

lemma replace_demo [simp]:
  "replace ''$username'' ''alice'' ''Welcome to the community, $username!''
     = ''Welcome to the community, alice!''"
  by (simp add: replace_def)


lemma dump_simps [simp]:
  "trace (dump_checkpoint n w) = trace w @ [DumpCheckpoint n]"
  "checkpoint_file (dump_checkpoint n w) = Some n"
  "tables (dump_checkpoint n w) = tables w"
  "trace (dump_state d w) = trace w @ [DumpState d]"
  "checkpoint_file (dump_state d w) = checkpoint_file w"
  "tables (dump_state d w) = tables w"
  by (simp_all add: dump_checkpoint_def dump_state_def)

lemma moment_simps [simp]:
  "moment (dump_checkpoint n w) = Suc (moment w)"
  "moment (dump_state d w) = Suc (moment w)"
  "moment (insert_row t r w) = Suc (moment w)"
  by (simp_all add: moment_def)

lemma fetched_simps [simp]:
  "fetched [] = []" "fetched (e # es) = fetch_of e @ fetched es"
  "fetched (xs @ ys) = fetched xs @ fetched ys"
  by (simp_all add: fetched_def)

lemma saved_simps [simp]:
  "saved [] = []" "saved (e # es) = save_of e @ saved es"
  "saved (xs @ ys) = saved xs @ saved ys"
  by (simp_all add: saved_def)

lemma block_events_fetched:
  "list_all (block_event n) evs \<Longrightarrow> fetched evs = replicate (length (fetched evs)) n"
proof (induction evs)
  case Nil
  then show ?case by simp
next
  case (Cons e evs)
  then show ?case by (cases e) auto
qed

lemma block_events_saved: "list_all (block_event n) evs \<Longrightarrow> saved evs = []"
proof (induction evs)
  case Nil
  then show ?case by simp
next
  case (Cons e evs)
  then show ?case by (cases e) auto
qed

lemma properties_emits':
  assumes "\<And>l s a. P (Log l s a)" "P GetProps" "emits P w w1"
  shows "emits P w (snd (properties d env w1))"
  using assms(3) properties_emits [of P w1 d env, OF assms(1,2)] by (rule emits_trans)

lemma process_rest_emits:
  assumes "\<And>l s a. P (Log l s a)" "\<And>i. P (GetContent i)" "\<And>i b a. P (Reply i b a)"
    "\<And>i x a. P (Vote i x a)" "\<And>r. P (Insert ''welcome'' r)" "\<And>n. P (GetOps n)"
    "P GetProps" "\<And>d. P (DumpState d)" "emits P w w1"
  shows "emits P w (snd (process_rest env n bd w1))"
proof -
  have emits_dump: "emits P w w2 \<Longrightarrow> emits P w (dump_state d w2)" for d w2
    using assms(8) by (auto simp: emits_def)
  show ?thesis
    by (auto simp: process_rest_def Let_def case_prod_unfold split: option.splits sum.splits
        intro!: emits_emit check_block_emits properties_emits' emits_dump assms)
qed

lemma process_rest_frame:
  "checkpoint_file (snd (process_rest env n bd w)) = checkpoint_file w"
  by (auto simp: process_rest_def Let_def case_prod_unfold check_block_frame properties_frame
      split: option.splits sum.splits)

lemma process_block_found:
  "\<not> falsy (block_at env (moment w) n) \<Longrightarrow>
   process_block env n rc w
     = process_rest env n (block_at env (moment w) n) (emit (GetBlock n) w)"
  by (subst process_block.simps) simp

lemma process_block_skip:
  "falsy (block_at env (moment w) n) \<Longrightarrow> rc > 3 \<Longrightarrow>
   process_block env n rc w
     = (Inr (), emit (Log ERROR ''Retried 3 times to get this block: %s Skipping.'' [ArgInt n])
                  (emit (GetBlock n) w))"
  by (subst process_block.simps) simp

lemma process_block_retry:
  "falsy (block_at env (moment w) n) \<Longrightarrow> \<not> rc > 3 \<Longrightarrow>
   process_block env n rc w
     = (case process_block env n (rc + 1)
               (emit (Log ERROR ''Couldnt read the block: %s. Retrying.'' [ArgInt n])
                  (emit (GetBlock n) w)) of
          (Inl e, w2) \<Rightarrow> (Inl e, w2)
        | (Inr u, w2) \<Rightarrow> process_rest env n (block_at env (moment w) n) w2)"
  by (subst process_block.simps) simp

lemma process_block_emits:
  assumes "\<And>l s a. P (Log l s a)" "\<And>i. P (GetContent i)" "\<And>i b a. P (Reply i b a)"
    "\<And>i x a. P (Vote i x a)" "\<And>r. P (Insert ''welcome'' r)" "\<And>n. P (GetOps n)"
    "P GetProps" "\<And>d. P (DumpState d)"
  shows "P (GetBlock n) \<Longrightarrow> emits P w w1 \<Longrightarrow> emits P w (snd (process_block env n rc w1))"
proof (induction env n rc w1 rule: process_block.induct)
  case (1 env block_num retry_count w1)
  note rest = process_rest_emits [of P, OF assms(1-8)]
  have fetch: "emits P w (emit (GetBlock block_num) w1)"
    using "1.prems" by (intro emits_emit)
  show ?case
  proof (cases "falsy (block_at env (moment w1) block_num)")
    case False
    then show ?thesis
      using rest [OF fetch] by (simp add: process_block_found)
  next
    case True
    show ?thesis
    proof (cases "retry_count > 3")
      case True
      have "emits P w (emit (Log ERROR ''Retried 3 times to get this block: %s Skipping.''
                [ArgInt block_num]) (emit (GetBlock block_num) w1))"
        using assms(1) fetch by (rule emits_emit)
      with True \<open>falsy _\<close> show ?thesis
        by (simp add: process_block_skip)
    next
      case False
      have "emits P w (emit (Log ERROR ''Couldnt read the block: %s. Retrying.'' [ArgInt block_num])
                (emit (GetBlock block_num) w1))"
        using assms(1) fetch by (rule emits_emit)
      from "1.IH" [OF True False "1.prems"(1) this]
        rest [OF "1.IH" [OF True False "1.prems"(1) this]]
      show ?thesis
        using True False
        by (simp add: process_block_retry case_prod_unfold split: sum.splits)
    qed
  qed
qed

lemma process_block_frame:
  "checkpoint_file (snd (process_block env n rc w)) = checkpoint_file w"
proof (induction env n rc w rule: process_block.induct)
  case (1 env block_num retry_count w)
  show ?case
  proof (cases "falsy (block_at env (moment w) block_num)")
    case False
    then show ?thesis by (simp add: process_block_found process_rest_frame)
  next
    case True
    then show ?thesis
      using "1.IH"
      by (cases "retry_count > 3")
        (auto simp: process_block_skip process_block_retry case_prod_unfold process_rest_frame
          split: sum.splits)
  qed
qed

lemma process_block_events:
  "emits (block_event n) w w1 \<Longrightarrow> emits (block_event n) w (snd (process_block env n rc w1))"
  by (rule process_block_emits) simp_all

lemma process_block_first:
  "\<exists>evs. trace (snd (process_block env n rc w)) = trace w @ GetBlock n # evs
      \<and> list_all (block_event n) evs"
proof -
  have "emits (block_event n) (emit (GetBlock n) w) (emit (GetBlock n) w)"
    by simp
  note start = this
  have rest: "emits (block_event n) (emit (GetBlock n) w) (snd (process_rest env n bd (emit (GetBlock n) w)))" for bd
    by (rule process_rest_emits [OF _ _ _ _ _ _ _ _ start]) simp_all
  have "emits (block_event n) (emit (GetBlock n) w) (snd (process_block env n rc w))"
  proof (cases "falsy (block_at env (moment w) n)")
    case False
    then show ?thesis using rest by (simp add: process_block_found)
  next
    case True
    show ?thesis
    proof (cases "rc > 3")
      case True
      with \<open>falsy _\<close> show ?thesis by (simp add: process_block_skip emits_emit)
    next
      case False
      let ?w1 = "emit (Log ERROR ''Couldnt read the block: %s. Retrying.'' [ArgInt n])
                  (emit (GetBlock n) w)"
      have "emits (block_event n) (emit (GetBlock n) w) ?w1"
        by (simp add: emits_emit)
      then have rec: "emits (block_event n) (emit (GetBlock n) w)
                       (snd (process_block env n (rc + 1) ?w1))"
        by (rule process_block_events)
      have "emits (block_event n) (emit (GetBlock n) w)
              (snd (process_rest env n bd (snd (process_block env n (rc + 1) ?w1))))" for bd
        by (rule process_rest_emits [OF _ _ _ _ _ _ _ _ rec]) simp_all
      with rec show ?thesis
        using True False
        by (simp add: process_block_retry case_prod_unfold split: sum.splits)
    qed
  qed
  then show ?thesis
    by (auto simp: emits_def)
qed

lemma remdups_adj_replicate_append:
  "ys = [] \<or> hd ys \<noteq> x \<Longrightarrow> remdups_adj (replicate (Suc j) x @ ys) = x # remdups_adj ys"
proof (induction j)
  case 0
  then show ?case by (cases ys) auto
next
  case (Suc j)
  then show ?case by simp
qed

lemma upto_cons: "(a::int) \<le> b \<Longrightarrow> a # [a + 1..b] = [a..b]"
  by (simp add: upto_rec1 [of a b])

lemma quiet_events:
  "list_all (\<lambda>e. fetch_of e = [] \<and> save_of e = []) evs \<Longrightarrow> fetched evs = [] \<and> saved evs = []"
  by (induction evs) auto

lemma last_block_num_quiet:
  "\<exists>evs. trace (snd (last_block_num env w)) = trace w @ evs \<and> fetched evs = [] \<and> saved evs = []"
proof -
  have "emits (\<lambda>e. fetch_of e = [] \<and> save_of e = []) w (snd (last_block_num env w))"
    by (rule last_block_num_emits) simp_all
  then show ?thesis
    using quiet_events by (auto simp: emits_def)
qed

lemma block_interval_quiet:
  "\<exists>evs. trace (snd (block_interval env w)) = trace w @ evs \<and> fetched evs = [] \<and> saved evs = []"
proof -
  have "emits (\<lambda>e. fetch_of e = [] \<and> save_of e = []) w (snd (block_interval env w))"
    by (rule block_interval_emits) simp_all
  then show ?thesis
    using quiet_events by (auto simp: emits_def)
qed

lemma process_block_fetches:
  "\<exists>evs j. trace (snd (process_block env n rc w)) = trace w @ evs
      \<and> fetched evs = replicate (Suc j) n \<and> saved evs = []"
proof -
  obtain evs where t: "trace (snd (process_block env n rc w)) = trace w @ GetBlock n # evs"
    and b: "list_all (block_event n) evs"
    using process_block_first by blast
  have "fetched (GetBlock n # evs) = replicate (Suc (length (fetched evs))) n"
    using block_events_fetched [OF b] by simp
  moreover have "saved (GetBlock n # evs) = []"
    using block_events_saved [OF b] by simp
  ultimately show ?thesis using t by blast
qed

lemma run_loop_trace:
  "\<exists>evs k. trace (snd (run_loop n env lb w)) = trace w @ evs
     \<and> saved evs = [lb + 1..lb + int k]
     \<and> checkpoint_file (snd (run_loop n env lb w))
         = (if k = 0 then checkpoint_file w else Some (lb + int k))
     \<and> (remdups_adj (fetched evs) = [lb + 1..lb + int k]
        \<or> remdups_adj (fetched evs) = [lb + 1..lb + int k + 1])"
proof (induction n arbitrary: lb w)
  case 0
  have "trace (snd (run_loop 0 env lb w)) = trace w @ [] \<and> saved [] = [lb + 1..lb + int 0]
     \<and> checkpoint_file (snd (run_loop 0 env lb w))
         = (if (0::nat) = 0 then checkpoint_file w else Some (lb + int 0))
     \<and> (remdups_adj (fetched []) = [lb + 1..lb + int 0]
        \<or> remdups_adj (fetched []) = [lb + 1..lb + int 0 + 1])"
    by simp
  then show ?case by blast
next
  case (Suc n)
  obtain r0 w1 where head: "last_block_num env w = (r0, w1)"
    by (cases "last_block_num env w")
  obtain e0 where e0: "trace w1 = trace w @ e0" "fetched e0 = []" "saved e0 = []"
    using last_block_num_quiet [of env w] head by auto
  have cp1: "checkpoint_file w1 = checkpoint_file w"
    using last_block_num_frame(1) [of env w] head by simp
  show ?case
  proof (cases r0)
    case (Inl e)
    have "trace (snd (run_loop (Suc n) env lb w)) = trace w @ e0 \<and> saved e0 = [lb + 1..lb + int 0]
     \<and> checkpoint_file (snd (run_loop (Suc n) env lb w))
         = (if (0::nat) = 0 then checkpoint_file w else Some (lb + int 0))
     \<and> (remdups_adj (fetched e0) = [lb + 1..lb + int 0]
        \<or> remdups_adj (fetched e0) = [lb + 1..lb + int 0 + 1])"
      using head Inl e0 cp1 by simp
    then show ?thesis by blast
  next
    case (Inr h)
    show ?thesis
    proof (cases "h - lb > 0")
      case True
      obtain r1 w2 where pb: "process_block env (lb + 1) 0 w1 = (r1, w2)"
        by (cases "process_block env (lb + 1) 0 w1")
      obtain e1 j where e1: "trace w2 = trace w1 @ e1" "fetched e1 = replicate (Suc j) (lb + 1)"
        "saved e1 = []"
        using process_block_fetches [of env "lb + 1" 0 w1] pb by auto
      have cp2: "checkpoint_file w2 = checkpoint_file w"
        using process_block_frame [of env "lb + 1" 0 w1] pb cp1 by simp
      show ?thesis
      proof (cases r1)
        case (Inl e)
        have "trace (snd (run_loop (Suc n) env lb w)) = trace w @ (e0 @ e1)
          \<and> saved (e0 @ e1) = [lb + 1..lb + int 0]
          \<and> checkpoint_file (snd (run_loop (Suc n) env lb w))
              = (if (0::nat) = 0 then checkpoint_file w else Some (lb + int 0))
          \<and> (remdups_adj (fetched (e0 @ e1)) = [lb + 1..lb + int 0]
             \<or> remdups_adj (fetched (e0 @ e1)) = [lb + 1..lb + int 0 + 1])"
          using head \<open>r0 = Inr h\<close> True pb Inl e0 e1 cp2
            remdups_adj_replicate_append [of "[]" "lb + 1" j]
          by simp
        then show ?thesis by blast
      next
        case (Inr u)
        let ?w3 = "dump_checkpoint (lb + 1) w2"
        obtain e2 k where e2: "trace (snd (run_loop n env (lb + 1) ?w3)) = trace ?w3 @ e2"
          "saved e2 = [lb + 1 + 1..lb + 1 + int k]"
          "checkpoint_file (snd (run_loop n env (lb + 1) ?w3))
             = (if k = 0 then checkpoint_file ?w3 else Some (lb + 1 + int k))"
          "remdups_adj (fetched e2) = [lb + 1 + 1..lb + 1 + int k]
             \<or> remdups_adj (fetched e2) = [lb + 1 + 1..lb + 1 + int k + 1]"
          using Suc.IH [of "lb + 1" ?w3] by blast
        have unfold: "run_loop (Suc n) env lb w = run_loop n env (lb + 1) ?w3"
          using head \<open>r0 = Inr h\<close> True pb Inr by simp
        have hd2: "fetched e2 = [] \<or> hd (fetched e2) \<noteq> lb + 1"
        proof (cases "fetched e2 = []")
          case False
          then have "remdups_adj (fetched e2) \<noteq> []" by simp
          moreover have "hd (remdups_adj (fetched e2)) = hd (fetched e2)" by simp
          ultimately have "hd (fetched e2) = lb + 1 + 1"
            using e2(4) by (metis upto_Nil2 upto_rec1 list.sel(1) linorder_not_less)
          then show ?thesis by simp
        qed simp
        have f: "remdups_adj (fetched (e0 @ e1 @ [DumpCheckpoint (lb + 1)] @ e2))
                  = (lb + 1) # remdups_adj (fetched e2)"
          using e0 e1 remdups_adj_replicate_append [OF hd2, of j] by simp
        have k1: "lb + 1 + int k = lb + int (Suc k)"
          by simp
        have s: "saved (e0 @ e1 @ [DumpCheckpoint (lb + 1)] @ e2) = [lb + 1..lb + int (Suc k)]"
          using e0 e1 e2(2) upto_cons [of "lb + 1" "lb + int (Suc k)"] unfolding k1 by simp
        have r: "remdups_adj (fetched (e0 @ e1 @ [DumpCheckpoint (lb + 1)] @ e2))
                   = [lb + 1..lb + int (Suc k)]
             \<or> remdups_adj (fetched (e0 @ e1 @ [DumpCheckpoint (lb + 1)] @ e2))
                   = [lb + 1..lb + int (Suc k) + 1]"
          using e2(4) upto_cons [of "lb + 1" "lb + int (Suc k)"]
            upto_cons [of "lb + 1" "lb + int (Suc k) + 1"]
          unfolding f k1 by auto
        have c: "checkpoint_file (snd (run_loop (Suc n) env lb w))
              = (if Suc k = 0 then checkpoint_file w else Some (lb + int (Suc k)))"
          using unfold e2(3) by (simp del: of_nat_Suc add: k1 [symmetric])
        have t: "trace (snd (run_loop (Suc n) env lb w))
                = trace w @ (e0 @ e1 @ [DumpCheckpoint (lb + 1)] @ e2)"
          using unfold e2(1) e0 e1 by simp
        from t s c r show ?thesis by blast
      qed
    next
      case False
      obtain r1 w2 where bi: "block_interval env w1 = (r1, w2)"
        by (cases "block_interval env w1")
      obtain e1 where e1: "trace w2 = trace w1 @ e1" "fetched e1 = []" "saved e1 = []"
        using block_interval_quiet [of env w1] bi by auto
      have cp2: "checkpoint_file w2 = checkpoint_file w"
        using block_interval_frame(1) [of env w1] bi cp1 by simp
      show ?thesis
      proof (cases r1)
        case (Inl e)
        have "trace (snd (run_loop (Suc n) env lb w)) = trace w @ (e0 @ e1)
          \<and> saved (e0 @ e1) = [lb + 1..lb + int 0]
          \<and> checkpoint_file (snd (run_loop (Suc n) env lb w))
              = (if (0::nat) = 0 then checkpoint_file w else Some (lb + int 0))
          \<and> (remdups_adj (fetched (e0 @ e1)) = [lb + 1..lb + int 0]
             \<or> remdups_adj (fetched (e0 @ e1)) = [lb + 1..lb + int 0 + 1])"
          using head \<open>r0 = Inr h\<close> False bi Inl e0 e1 cp2 by simp
        then show ?thesis by blast
      next
        case (Inr seconds)
        let ?w3 = "emit (Sleep seconds)
                     (emit (Log INFO ''Sleeping for %s seconds.'' [ArgInt seconds]) w2)"
        obtain e2 k where e2: "trace (snd (run_loop n env lb ?w3)) = trace ?w3 @ e2"
          "saved e2 = [lb + 1..lb + int k]"
          "checkpoint_file (snd (run_loop n env lb ?w3))
             = (if k = 0 then checkpoint_file ?w3 else Some (lb + int k))"
          "remdups_adj (fetched e2) = [lb + 1..lb + int k]
             \<or> remdups_adj (fetched e2) = [lb + 1..lb + int k + 1]"
          using Suc.IH [of lb ?w3] by blast
        have unfold: "run_loop (Suc n) env lb w = run_loop n env lb ?w3"
          using head \<open>r0 = Inr h\<close> False bi Inr by simp
        let ?evs = "e0 @ e1 @ [Log INFO ''Sleeping for %s seconds.'' [ArgInt seconds],
                      Sleep seconds] @ e2"
        have "trace (snd (run_loop (Suc n) env lb w)) = trace w @ ?evs
          \<and> saved ?evs = [lb + 1..lb + int k]
          \<and> checkpoint_file (snd (run_loop (Suc n) env lb w))
              = (if k = 0 then checkpoint_file w else Some (lb + int k))
          \<and> (remdups_adj (fetched ?evs) = [lb + 1..lb + int k]
             \<or> remdups_adj (fetched ?evs) = [lb + 1..lb + int k + 1])"
          using unfold e2 e0 e1 cp2 by auto
        then show ?thesis by blast
      qed
    qed
  qed
qed

lemma properties_ok:
  "0 < d \<Longrightarrow> props_at env (moment w) = Some p \<Longrightarrow> p \<noteq> [] \<Longrightarrow>
   properties d env w = (Inr p, emit GetProps w)"
  by (cases d) (simp_all add: Let_def)

lemma demo_ops [simp]:
  "ops_at demo_env t 98 = [(''comment'', \<lparr>raw_author = ''carol'', raw_permlink = ''re-intro''\<rparr>)]"
  "n \<noteq> 98 \<Longrightarrow> ops_at demo_env t n = []"
  by (simp_all add: demo_env_def)

lemma demo_head [simp]: "last_block_num demo_env w = (Inr 100, emit GetProps w)"
  by (simp add: last_block_num_def properties_ok)

lemma demo_interval [simp]: "block_interval demo_env w = (Inr 3, emit GetConfig w)"
  by (simp add: block_interval_def)

lemma demo_process_plain:
  "n \<noteq> 98 \<Longrightarrow>
   process_block demo_env n 0 w
     = (Inr (), dump_state [(''head_block_number'', 100)]
          (emit GetProps (emit (GetOps n)
            (emit (Log INFO ''Processing block: %s'' [ArgInt n]) (emit (GetBlock n) w)))))"
  by (simp add: process_block_found process_rest_def check_block_def properties_ok)

lemma mention_demo [simp]: "sublist ''@bot'' ''hello @bot !welcome friend''"
  by (simp add: sublist_code)

lemma demo_handle_command:
  "tables w ''welcome'' = [] \<Longrightarrow> tables w ''upvote'' = [] \<Longrightarrow>
   handle_command demo_env command_post w
     = (Inr (), insert_row ''welcome''
          \<lparr>row_author = ''alice'', row_permlink = ''intro'', created_at = ''2018-02-01 12:00:00''\<rparr>
          (emit (Log INFO ''Replied and upvoted user: %s'' [ArgStr ''alice''])
            (emit (Vote (''alice'', ''intro'') 80 ''bot'')
              (emit (Reply (''alice'', ''intro'') ''Welcome to the community, alice!'' ''bot'')
                (emit (GetContent (''alice'', ''intro'')) w)))))"
  by (simp add: handle_command_def Post_def already_welcomed_def find_one_def reply_def upvote_def
     identifier_of_def Let_def)

lemma demo_process_98:
  "tables w ''welcome'' = [] \<Longrightarrow> tables w ''upvote'' = [] \<Longrightarrow>
   process_block demo_env 98 0 w
     = (Inr (), dump_state [(''head_block_number'', 100)]
          (emit GetProps
            (insert_row ''welcome''
              \<lparr>row_author = ''alice'', row_permlink = ''intro'',
               created_at = ''2018-02-01 12:00:00''\<rparr>
              (emit (Log INFO ''Replied and upvoted user: %s'' [ArgStr ''alice''])
                (emit (Vote (''alice'', ''intro'') 80 ''bot'')
                  (emit (Reply (''alice'', ''intro'') ''Welcome to the community, alice!'' ''bot'')
                    (emit (GetContent (''alice'', ''intro''))
                      (emit (GetContent (''carol'', ''re-intro''))
                        (emit (GetOps 98)
                          (emit (Log INFO ''Processing block: %s'' [ArgInt 98])
                            (emit (GetBlock 98) w)))))))))))"
  by (simp add: process_block_found process_rest_def check_block_def check_op_def Post_def
      demo_handle_command properties_ok)

lemma demo_idle:
  "fst (run_loop m demo_env 100 w) = None
   \<and> checkpoint_file (snd (run_loop m demo_env 100 w)) = checkpoint_file w
   \<and> fetched (trace (snd (run_loop m demo_env 100 w))) = fetched (trace w)
   \<and> saved (trace (snd (run_loop m demo_env 100 w))) = saved (trace w)"
  by (induction m arbitrary: w) simp_all

lemma demo_run:
  "fst (listen demo_env (5 + m) fresh_world) = None
   \<and> checkpoint_file (snd (listen demo_env (5 + m) fresh_world)) = Some 100
   \<and> fetched (trace (snd (listen demo_env (5 + m) fresh_world))) = [96, 97, 98, 99, 100]
   \<and> saved (trace (snd (listen demo_env (5 + m) fresh_world))) = [96, 97, 98, 99, 100]"
proof -
  have five: "5 + m = Suc (Suc (Suc (Suc (Suc m))))"
    by simp
  show ?thesis
    unfolding five
    by (simp add: listen_def run_def load_checkpoint_def demo_process_plain demo_process_98
        demo_idle)
qed

lemma listen_trace:
  assumes "checkpoint_file w = Some c"
  shows "\<exists>evs k. trace (snd (listen env n w)) = trace w @ evs
     \<and> saved evs = [c + 1..c + int k]
     \<and> checkpoint_file (snd (listen env n w)) = Some (c + int k)
     \<and> (remdups_adj (fetched evs) = [c + 1..c + int k]
        \<or> remdups_adj (fetched evs) = [c + 1..c + int k + 1])"
proof -
  let ?w0 = "emit (Log INFO ''Starting TX listener...'' []) w"
  obtain r0 w1 where head: "last_block_num env ?w0 = (r0, w1)"
    by (cases "last_block_num env ?w0")
  obtain e0 where e0: "trace w1 = trace ?w0 @ e0" "fetched e0 = []" "saved e0 = []"
    using last_block_num_quiet [of env ?w0] head by auto
  have cp1: "checkpoint_file w1 = Some c"
    using last_block_num_frame(1) [of env ?w0] head assms by simp
  show ?thesis
  proof (cases r0)
    case (Inl e)
    let ?evs = "Log INFO ''Starting TX listener...'' [] # e0"
    have "trace (snd (listen env n w)) = trace w @ ?evs \<and> saved ?evs = [c + 1..c + int 0]
      \<and> checkpoint_file (snd (listen env n w)) = Some (c + int 0)
      \<and> (remdups_adj (fetched ?evs) = [c + 1..c + int 0]
         \<or> remdups_adj (fetched ?evs) = [c + 1..c + int 0 + 1])"
      using head Inl e0 cp1 by (simp add: listen_def run_def)
    then show ?thesis by blast
  next
    case (Inr h)
    let ?w2 = "emit (Log INFO ''Last processed block: %s'' [ArgInt c]) w1"
    have unfold: "listen env n w = run_loop n env c ?w2"
      using head Inr cp1 by (simp add: listen_def run_def load_checkpoint_def)
    obtain e2 k where e2: "trace (snd (run_loop n env c ?w2)) = trace ?w2 @ e2"
      "saved e2 = [c + 1..c + int k]"
      "checkpoint_file (snd (run_loop n env c ?w2))
         = (if k = 0 then checkpoint_file ?w2 else Some (c + int k))"
      "remdups_adj (fetched e2) = [c + 1..c + int k]
         \<or> remdups_adj (fetched e2) = [c + 1..c + int k + 1]"
      using run_loop_trace [of n env c ?w2] by blast
    let ?evs = "Log INFO ''Starting TX listener...'' [] # e0
                  @ Log INFO ''Last processed block: %s'' [ArgInt c] # e2"
    have "trace (snd (listen env n w)) = trace w @ ?evs \<and> saved ?evs = [c + 1..c + int k]
      \<and> checkpoint_file (snd (listen env n w)) = Some (c + int k)
      \<and> (remdups_adj (fetched ?evs) = [c + 1..c + int k]
         \<or> remdups_adj (fetched ?evs) = [c + 1..c + int k + 1])"
      using unfold e2 e0 cp1 by auto
    then show ?thesis by blast
  qed
qed

lemma process_rest_falsy:
  "falsy bd \<Longrightarrow>
   process_rest env n bd w
     = (case bd of None \<Rightarrow> Inl TypeError | Some keys \<Rightarrow> Inr (),
        emit (Log INFO ''Processing block: %s'' [ArgInt n]) w)"
  by (cases bd) (simp_all add: process_rest_def)

lemma none_env_simps [simp]:
  "stack_limit none_env = 1000"
  "props_at none_env t = Some [(''head_block_number'', 100)]"
  "block_at none_env t n = None"
  by (simp_all add: none_env_def)

lemma empty_env_simps [simp]:
  "stack_limit empty_env = 1000"
  "props_at empty_env t = Some [(''head_block_number'', 100)]"
  "block_at empty_env t n = Some []"
  by (simp_all add: empty_env_def)

section \<open>A unit whose fetch stays empty\<close>

text \<open>
  C1 against the code. Head 100, checkpoint 95, and every fetch of block 96 answers
  \<^verbatim>\<open>None\<close>, as the node does for a block it does not have. \<^verbatim>\<open>retry_count > 3\<close> lets
  the retries run to a fifth fetch, although the last message says
  \<open>Retried 3 times\<close>; five errors are logged, that message once. The retry branch has no
  \<^verbatim>\<open>return\<close> behind its recursive call, so the frame of the fourth fetch goes on to
  \<^verbatim>\<open>'transactions' not in block_data\<close> with \<^verbatim>\<open>None\<close>: TypeError ends the loop, no
  checkpoint is saved and the file stays at 95. When every fetch answers an empty dict
  instead, the fall-through returns and the checkpoint 96 is saved, after five fetches
  and five logged errors as well.
\<close>

theorem empty_fetch_five_attempts:
  "fst (listen none_env (Suc m) fresh_world) = Some TypeError
   \<and> count_list (trace (snd (listen none_env (Suc m) fresh_world))) (GetBlock 96) = 5
   \<and> length (filter is_error (trace (snd (listen none_env (Suc m) fresh_world)))) = 5
   \<and> count_list (trace (snd (listen none_env (Suc m) fresh_world)))
         (Log ERROR ''Retried 3 times to get this block: %s Skipping.'' [ArgInt 96]) = 1
   \<and> saved (trace (snd (listen none_env (Suc m) fresh_world))) = []
   \<and> checkpoint_file (snd (listen none_env (Suc m) fresh_world)) = Some 95
   \<and> fst (listen empty_env (Suc 0) fresh_world) = None
   \<and> count_list (trace (snd (listen empty_env (Suc 0) fresh_world))) (GetBlock 96) = 5
   \<and> length (filter is_error (trace (snd (listen empty_env (Suc 0) fresh_world)))) = 5
   \<and> saved (trace (snd (listen empty_env (Suc 0) fresh_world))) = [96]
   \<and> checkpoint_file (snd (listen empty_env (Suc 0) fresh_world)) = Some 96"
  by (simp add: listen_def run_def load_checkpoint_def last_block_num_def properties_ok
      process_block_retry process_block_skip process_rest_falsy)

section \<open>The checkpoint over a run\<close>

text \<open>
  C6. The program starts the loop through \<^verbatim>\<open>listen\<close>, which calls \<^verbatim>\<open>run()\<close> with no
  \<^verbatim>\<open>start_from\<close>, so the loop resumes from the checkpoint file. When the file holds \<open>c\<close>
  at the start, then after any number of turns of the loop, and also when an exception has
  ended it, the checkpoints saved during the run are \<open>c + 1, c + 2, \<dots>, c + k\<close> in this
  order, the file holds the last of them (\<open>c\<close> itself when none was saved), and the
  sequence numbers fetched are \<open>c + 1, \<dots>, c + k\<close> in ascending order, or up to
  \<open>c + k + 1\<close> when the run ended inside that block. In the scenario with head 100 and
  checkpoint 95 the loop, given at least five turns, fetches exactly 96, 97, 98, 99, 100,
  saves these five checkpoints, and the file stays at 100.
\<close>

theorem checkpoint_ascending:
  "(checkpoint_file w = Some c \<longrightarrow>
      (\<exists>evs k. trace (snd (listen env n w)) = trace w @ evs
         \<and> saved evs = [c + 1..c + int k]
         \<and> checkpoint_file (snd (listen env n w)) = Some (c + int k)
         \<and> (remdups_adj (fetched evs) = [c + 1..c + int k]
            \<or> remdups_adj (fetched evs) = [c + 1..c + int k + 1])))
   \<and> checkpoint_file fresh_world = Some 95
   \<and> last_block_num demo_env fresh_world = (Inr 100, emit GetProps fresh_world)
   \<and> fst (listen demo_env (5 + m) fresh_world) = None
   \<and> fetched (trace (snd (listen demo_env (5 + m) fresh_world))) = [96, 97, 98, 99, 100]
   \<and> saved (trace (snd (listen demo_env (5 + m) fresh_world))) = [96, 97, 98, 99, 100]
   \<and> checkpoint_file (snd (listen demo_env (5 + m) fresh_world)) = Some 100"
  using listen_trace [of w c env n] demo_run [of m] by simp

theorem checkpoint_ascending_witness:
  "checkpoint_file fresh_world = Some 95
   \<and> (\<exists>evs k. trace (snd (listen demo_env 7 fresh_world)) = trace fresh_world @ evs
         \<and> saved evs = [95 + 1..95 + int k]
         \<and> checkpoint_file (snd (listen demo_env 7 fresh_world)) = Some (95 + int k)
         \<and> (remdups_adj (fetched evs) = [95 + 1..95 + int k]
            \<or> remdups_adj (fetched evs) = [95 + 1..95 + int k + 1]))
   \<and> checkpoint_file (snd (listen demo_env 7 fresh_world)) = Some 100"
proof -
  have start: "checkpoint_file fresh_world = Some 95"
    by simp
  have "(7::nat) = 5 + 2"
    by simp
  then have "checkpoint_file (snd (listen demo_env 7 fresh_world)) = Some 100"
    using checkpoint_ascending [of fresh_world 95 demo_env 7 2] by simp
  with start checkpoint_ascending [of fresh_world 95 demo_env 7 2] show ?thesis
    by blast
qed

section \<open>The addressed-command pattern on the three bodies\<close>

text \<open>
  C3, as the code has it. For the account \<open>bot\<close> the pattern finds a command in
  \<open>hello @bot !welcome friend\<close>, and finds none in \<open>@bot!welcome\<close> nor in
  \<open>@bot welcome\<close>: \<^verbatim>\<open>\s\<close> asks for exactly one whitespace character between the mention
  and \<open>!welcome\<close>.
\<close>

theorem pattern_on_three_bodies:
  "findall ''bot'' ''hello @bot !welcome friend'' = [''welcome'']
   \<and> findall ''bot'' ''@bot!welcome'' = []
   \<and> findall ''bot'' ''@bot welcome'' = []"
  by (simp add: findall_def welcome_pattern_def is_space_def)

text \<open>The claim of C3 that \<open>@bot!welcome\<close>, with no whitespace, matches, is false.\<close>

theorem no_space_does_not_match:
  "\<not> (findall ''bot'' ''@bot!welcome'' \<noteq> [])"
  by (simp add: findall_def welcome_pattern_def is_space_def)

section \<open>Blacklist precedence\<close>

text \<open>
  C9. When the author of the post handed to the command processor is in the blacklist,
  \<^verbatim>\<open>handle_command\<close> returns at once: it logs one line and nothing else happens, so there
  is no reply, no vote, and no row is written to any table.
\<close>

theorem blacklisted_author_no_effect:
  assumes "author p \<in> set (blacklisted_users env)"
  shows "fst (handle_command env p w) = Inr ()
     \<and> trace (snd (handle_command env p w))
         = trace w @ [Log INFO ''User on blacklist. (%s). Skipping'' [ArgStr (permlink p)]]
     \<and> tables (snd (handle_command env p w)) = tables w"
  using assms by (simp add: handle_command_def)

theorem blacklisted_author_no_effect_witness:
  "author spam_post \<in> set (blacklisted_users demo_env)
   \<and> findall (account demo_env) (body spam_post) \<noteq> []
   \<and> fst (handle_command demo_env spam_post fresh_world) = Inr ()
   \<and> trace (snd (handle_command demo_env spam_post fresh_world))
       = [Log INFO ''User on blacklist. (%s). Skipping'' [ArgStr ''re-intro-2'']]
   \<and> tables (snd (handle_command demo_env spam_post fresh_world)) = tables fresh_world"
proof -
  have listed: "author spam_post \<in> set (blacklisted_users demo_env)"
    by (simp add: spam_post_def demo_env_def)
  have "findall (account demo_env) (body spam_post) \<noteq> []"
    by (simp add: spam_post_def demo_env_def findall_def welcome_pattern_def is_space_def)
  with listed blacklisted_author_no_effect [OF listed, of fresh_world] show ?thesis
    by (simp add: spam_post_def fresh_world_def)
qed

lemma welcomed_world_simps [simp]:
  "trace welcomed_world = []" "moment welcomed_world = 0"
  "tables welcomed_world ''welcome'' = [welcomed_row]"
  "row_author welcomed_row = ''alice''" "row_permlink welcomed_row = ''my-first-post''"
  by (simp_all add: welcomed_world_def welcomed_row_def moment_def)

lemma nested_env_simps [simp]:
  "account nested_env = ''bot''"
  "blacklisted_users nested_env = [''spammer'']"
  "welcome_message nested_env = Some ''Welcome to the community, $username!''"
  "reply_at nested_env t i = None"
  "content_at nested_env t (''alice'', ''intro'') = Some (root_post\<lparr>depth := 1\<rparr>)"
  by (simp_all add: nested_env_def)

lemma deleted_env_simps [simp]:
  "account deleted_env = ''bot''"
  "blacklisted_users deleted_env = [''spammer'']"
  "stack_limit deleted_env = 1000"
  "props_at deleted_env t = Some [(''head_block_number'', 100)]"
  "block_at deleted_env t n = Some [''block_id'', ''transactions'']"
  "ops_at deleted_env t 98 = [(''comment'', \<lparr>raw_author = ''carol'', raw_permlink = ''re-intro''\<rparr>)]"
  "n \<noteq> 98 \<Longrightarrow> ops_at deleted_env t n = []"
  "content_at deleted_env t (''carol'', ''re-intro'') = Some command_post"
  "content_at deleted_env t (''alice'', ''intro'') = None"
  by (simp_all add: deleted_env_def demo_env_def)

section \<open>A welcome command whose subject is not a root post\<close>

text \<open>
  C7. Let the author of the command not be blacklisted, the body match the pattern, the
  subject resolve to a post that is not a main post, no welcome row exist for the
  subject's author, and the template file be readable. Then \<^verbatim>\<open>handle_command\<close>
  fetches the subject, submits the reply composed from the template to the subject, and
  stops: the only further event is the log line \<open>Skipping. Not a main post.\<close> (none when
  the submission raised), so no vote is cast, and the tables are as before.
\<close>

theorem reply_without_vote_or_record:
  assumes "author p \<notin> set (blacklisted_users env)"
    and "findall (account env) (body p) \<noteq> []"
    and "content_at env (moment w) (root_identifier p) = Some main_post"
    and "already_welcomed w main_post = None"
    and "welcome_message env = Some template"
    and "\<not> is_main_post main_post"
  shows "trace (snd (handle_command env p w))
       = trace w @ [GetContent (root_identifier p),
                    Reply (identifier_of main_post)
                      (replace ''$username'' (author main_post) template) (account env)]
           @ (case reply_at env (Suc (moment w)) (identifier_of main_post) of
                None \<Rightarrow> [Log INFO ''Skipping. Not a main post.'' []]
              | Some e \<Rightarrow> [])
     \<and> fst (handle_command env p w)
       = (case reply_at env (Suc (moment w)) (identifier_of main_post) of
            None \<Rightarrow> Inr ()
          | Some e \<Rightarrow> Inl e)
     \<and> tables (snd (handle_command env p w)) = tables w"
  using assms
  by (simp add: handle_command_def Post_def already_welcomed_def reply_def split: option.splits)

theorem reply_without_vote_or_record_witness:
  "author command_post \<notin> set (blacklisted_users nested_env)
   \<and> findall (account nested_env) (body command_post) \<noteq> []
   \<and> content_at nested_env (moment fresh_world) (root_identifier command_post)
       = Some (root_post\<lparr>depth := 1\<rparr>)
   \<and> already_welcomed fresh_world (root_post\<lparr>depth := 1\<rparr>) = None
   \<and> welcome_message nested_env = Some ''Welcome to the community, $username!''
   \<and> \<not> is_main_post (root_post\<lparr>depth := 1\<rparr>)
   \<and> trace (snd (handle_command nested_env command_post fresh_world))
       = [GetContent (''alice'', ''intro''),
          Reply (''alice'', ''intro'') ''Welcome to the community, alice!'' ''bot'',
          Log INFO ''Skipping. Not a main post.'' []]
   \<and> fst (handle_command nested_env command_post fresh_world) = Inr ()
   \<and> tables (snd (handle_command nested_env command_post fresh_world)) = tables fresh_world"
proof -
  have a: "author command_post \<notin> set (blacklisted_users nested_env)"
    by simp
  have b: "findall (account nested_env) (body command_post) \<noteq> []"
    by simp
  have c: "content_at nested_env (moment fresh_world) (root_identifier command_post)
             = Some (root_post\<lparr>depth := 1\<rparr>)"
    by simp
  have d: "already_welcomed fresh_world (root_post\<lparr>depth := 1\<rparr>) = None"
    by (simp add: already_welcomed_def find_one_def)
  have e: "welcome_message nested_env = Some ''Welcome to the community, $username!''"
    by simp
  have f: "\<not> is_main_post (root_post\<lparr>depth := 1\<rparr>)"
    by (simp add: is_main_post_def)
  from reply_without_vote_or_record [OF a b c d e f] a b c d e f show ?thesis
    by (simp add: identifier_of_def root_post_def)
qed

section \<open>The key of the already-welcomed decision\<close>

text \<open>
  C8, as the code has it. The decision reads the table \<^verbatim>\<open>welcome\<close> by the author of the
  subject only. When the table has any row of that author, whatever its permlink, a
  welcome command on a subject of the same author is treated as already handled: the
  subject is fetched, \<open>already welcomed\<close> is logged, and there is no reply, no vote and no
  new row.
\<close>

theorem welcomed_author_is_skipped:
  assumes "author p \<notin> set (blacklisted_users env)"
    and "findall (account env) (body p) \<noteq> []"
    and "content_at env (moment w) (root_identifier p) = Some main_post"
    and "r \<in> set (tables w ''welcome'')"
    and "row_author r = author main_post"
  shows "already_welcomed w main_post \<noteq> None
     \<and> fst (handle_command env p w) = Inr ()
     \<and> trace (snd (handle_command env p w))
       = trace w @ [GetContent (root_identifier p),
                    Log INFO ''This user: %s already welcomed. Skipping''
                      [ArgStr (author main_post)]]
     \<and> tables (snd (handle_command env p w)) = tables w"
proof -
  have "already_welcomed w main_post \<noteq> None"
    using assms(4,5) by (auto simp: already_welcomed_def find_one_def find_None_iff)
  then show ?thesis
    using assms(1-3)
    by (auto simp: handle_command_def Post_def already_welcomed_def)
qed

theorem welcomed_author_is_skipped_witness:
  "author command_post \<notin> set (blacklisted_users demo_env)
   \<and> findall (account demo_env) (body command_post) \<noteq> []
   \<and> content_at demo_env (moment welcomed_world) (root_identifier command_post) = Some root_post
   \<and> welcomed_row \<in> set (tables welcomed_world ''welcome'')
   \<and> row_author welcomed_row = author root_post
   \<and> row_permlink welcomed_row \<noteq> permlink root_post
   \<and> already_welcomed welcomed_world root_post \<noteq> None
   \<and> fst (handle_command demo_env command_post welcomed_world) = Inr ()
   \<and> trace (snd (handle_command demo_env command_post welcomed_world))
       = [GetContent (''alice'', ''intro''),
          Log INFO ''This user: %s already welcomed. Skipping'' [ArgStr ''alice'']]
   \<and> tables (snd (handle_command demo_env command_post welcomed_world)) = tables welcomed_world"
proof -
  have a: "author command_post \<notin> set (blacklisted_users demo_env)"
    by simp
  have b: "findall (account demo_env) (body command_post) \<noteq> []"
    by simp
  have c: "content_at demo_env (moment welcomed_world) (root_identifier command_post)
             = Some root_post"
    by simp
  have d: "welcomed_row \<in> set (tables welcomed_world ''welcome'')"
    by simp
  have e: "row_author welcomed_row = author root_post"
    by simp
  from welcomed_author_is_skipped [OF a b c d e] a b c d e show ?thesis
    by simp
qed

text \<open>
  The claim of C8 has a welcome command on another resource of the same author not
  treated as already handled. Here the table holds a row for \<open>alice\<close> and the permlink
  \<open>my-first-post\<close>, the command's subject is \<open>alice\<close>'s post \<open>intro\<close>, and the command is
  found already welcomed and skipped.
\<close>

theorem other_resource_counterexample:
  "tables welcomed_world ''welcome'' = [welcomed_row]
   \<and> row_author welcomed_row = author root_post
   \<and> row_permlink welcomed_row \<noteq> permlink root_post
   \<and> already_welcomed welcomed_world root_post = Some welcomed_row
   \<and> handle_command demo_env command_post welcomed_world
       = (Inr (), emit (Log INFO ''This user: %s already welcomed. Skipping'' [ArgStr ''alice''])
                    (emit (GetContent (''alice'', ''intro'')) welcomed_world))"
  by (simp add: handle_command_def Post_def already_welcomed_def find_one_def)

lemma check_op_not_addressed:
  "\<not> addressed env (moment w) operation \<Longrightarrow>
   check_op env operation w
     = (Inr (), if fst operation = ''comment''
                then emit (GetContent (raw_author (snd operation), raw_permlink (snd operation))) w
                else w)"
  by (cases operation)
    (auto simp: check_op_def addressed_def Post_def split: option.splits)

lemma check_ops_not_addressed:
  "\<forall>operation \<in> set ops. \<forall>t. \<not> addressed env t operation \<Longrightarrow>
   fst (check_ops env ops w) = Inr ()
   \<and> emits is_content_read w (snd (check_ops env ops w))
   \<and> tables (snd (check_ops env ops w)) = tables w"
proof (induction ops arbitrary: w)
  case Nil
  then show ?case by simp
next
  case (Cons operation rest)
  let ?w1 = "if fst operation = ''comment''
             then emit (GetContent (raw_author (snd operation), raw_permlink (snd operation))) w
             else w"
  have step: "check_op env operation w = (Inr (), ?w1)"
    using Cons.prems by (simp add: check_op_not_addressed)
  have e1: "emits is_content_read w ?w1"
    by (simp add: emits_emit)
  have rest: "fst (check_ops env rest ?w1) = Inr ()
     \<and> emits is_content_read ?w1 (snd (check_ops env rest ?w1))
     \<and> tables (snd (check_ops env rest ?w1)) = tables ?w1"
    using Cons.IH [of ?w1] Cons.prems by simp
  have "emits is_content_read w (snd (check_ops env rest ?w1))"
    using e1 rest by (blast intro: emits_trans)
  moreover have "tables ?w1 = tables w"
    by simp
  ultimately show ?case
    using step rest by simp
qed

section \<open>Which operations reach the command processor\<close>

text \<open>
  C10. \<^verbatim>\<open>check_block\<close> hands an operation to \<^verbatim>\<open>handle_command\<close> only when it is a
  comment whose post exists, is not a main post and has \<open>@account\<close> in its body; then the
  turn of the loop is the call of \<^verbatim>\<open>handle_command\<close> on that post. A comment operation
  that is a main post is only fetched, whatever its body says. A block none of whose
  operations is of the first kind is processed with nothing but fetches of posts: no
  reply, no vote, no row, no log line.
\<close>

theorem only_replies_with_mention_are_handled:
  "(content_at env (moment w) (raw_author raw, raw_permlink raw) = Some p \<and> is_main_post p
      \<longrightarrow> check_op env (''comment'', raw) w
            = (Inr (), emit (GetContent (raw_author raw, raw_permlink raw)) w))
   \<and> (content_at env (moment w) (raw_author raw, raw_permlink raw) = Some p
        \<and> \<not> is_main_post p \<and> sublist (''@'' @ account env) (body p)
      \<longrightarrow> check_op env (''comment'', raw) w
            = handle_command env p (emit (GetContent (raw_author raw, raw_permlink raw)) w))
   \<and> ((\<forall>operation \<in> set (ops_at env (moment w) n). \<forall>t. \<not> addressed env t operation)
      \<longrightarrow> fst (check_block env n w) = Inr ()
          \<and> (\<exists>evs. trace (snd (check_block env n w)) = trace w @ GetOps n # evs
                 \<and> list_all is_content_read evs)
          \<and> tables (snd (check_block env n w)) = tables w)"
proof (intro conjI impI)
  assume "content_at env (moment w) (raw_author raw, raw_permlink raw) = Some p \<and> is_main_post p"
  then show "check_op env (''comment'', raw) w
            = (Inr (), emit (GetContent (raw_author raw, raw_permlink raw)) w)"
    by (simp add: check_op_def Post_def)
next
  assume "content_at env (moment w) (raw_author raw, raw_permlink raw) = Some p
        \<and> \<not> is_main_post p \<and> sublist (''@'' @ account env) (body p)"
  then show "check_op env (''comment'', raw) w
            = handle_command env p (emit (GetContent (raw_author raw, raw_permlink raw)) w)"
    by (simp add: check_op_def Post_def)
next
  assume quiet: "\<forall>operation \<in> set (ops_at env (moment w) n). \<forall>t. \<not> addressed env t operation"
  note r = check_ops_not_addressed [OF quiet, of "emit (GetOps n) w"]
  from r show "fst (check_block env n w) = Inr ()"
    by (simp add: check_block_def)
  from r show "tables (snd (check_block env n w)) = tables w"
    by (simp add: check_block_def)
  from r show "\<exists>evs. trace (snd (check_block env n w)) = trace w @ GetOps n # evs
                 \<and> list_all is_content_read evs"
    by (auto simp: check_block_def emits_def)
qed

lemma rootcmd_env_simps [simp]:
  "account rootcmd_env = ''bot''"
  "ops_at rootcmd_env t n = [(''comment'', \<lparr>raw_author = ''alice'', raw_permlink = ''intro''\<rparr>)]"
  "content_at rootcmd_env t (''alice'', ''intro'') = Some root_command_post"
  "is_main_post root_command_post"
  "body root_command_post = ''@bot !welcome''"
  by (simp_all add: rootcmd_env_def root_command_post_def is_main_post_def)

theorem only_replies_with_mention_are_handled_witness:
  "content_at rootcmd_env (moment fresh_world) (''alice'', ''intro'') = Some root_command_post
   \<and> is_main_post root_command_post
   \<and> findall (account rootcmd_env) (body root_command_post) \<noteq> []
   \<and> check_op rootcmd_env (''comment'', \<lparr>raw_author = ''alice'', raw_permlink = ''intro''\<rparr>)
         fresh_world
       = (Inr (), emit (GetContent (''alice'', ''intro'')) fresh_world)
   \<and> content_at demo_env (moment fresh_world) (''carol'', ''re-intro'') = Some command_post
   \<and> \<not> is_main_post command_post
   \<and> sublist (''@'' @ account demo_env) (body command_post)
   \<and> check_op demo_env (''comment'', \<lparr>raw_author = ''carol'', raw_permlink = ''re-intro''\<rparr>)
         fresh_world
       = handle_command demo_env command_post (emit (GetContent (''carol'', ''re-intro'')) fresh_world)
   \<and> ops_at rootcmd_env (moment fresh_world) 98
       = [(''comment'', \<lparr>raw_author = ''alice'', raw_permlink = ''intro''\<rparr>)]
   \<and> (\<forall>t. \<not> addressed rootcmd_env t
               (''comment'', \<lparr>raw_author = ''alice'', raw_permlink = ''intro''\<rparr>))
   \<and> fst (check_block rootcmd_env 98 fresh_world) = Inr ()
   \<and> (\<exists>evs. trace (snd (check_block rootcmd_env 98 fresh_world))
               = trace fresh_world @ GetOps 98 # evs
          \<and> list_all is_content_read evs)
   \<and> tables (snd (check_block rootcmd_env 98 fresh_world)) = tables fresh_world"
proof -
  let ?raw = "\<lparr>raw_author = ''alice'', raw_permlink = ''intro''\<rparr>"
  let ?raw' = "\<lparr>raw_author = ''carol'', raw_permlink = ''re-intro''\<rparr>"
  have a: "content_at rootcmd_env (moment fresh_world) (raw_author ?raw, raw_permlink ?raw)
             = Some root_command_post \<and> is_main_post root_command_post"
    by simp
  have b: "content_at demo_env (moment fresh_world) (raw_author ?raw', raw_permlink ?raw')
             = Some command_post
           \<and> \<not> is_main_post command_post
           \<and> sublist (''@'' @ account demo_env) (body command_post)"
    by simp
  have c: "\<forall>t. \<not> addressed rootcmd_env t (''comment'', ?raw)"
    by (simp add: addressed_def)
  then have d: "\<forall>operation \<in> set (ops_at rootcmd_env (moment fresh_world) 98).
                  \<forall>t. \<not> addressed rootcmd_env t operation"
    by simp
  have m: "findall (account rootcmd_env) (body root_command_post) \<noteq> []"
    by (simp add: findall_def welcome_pattern_def is_space_def)
  from only_replies_with_mention_are_handled
         [of rootcmd_env fresh_world ?raw root_command_post 98]
       a d
  have one: "check_op rootcmd_env (''comment'', ?raw) fresh_world
               = (Inr (), emit (GetContent (raw_author ?raw, raw_permlink ?raw)) fresh_world)"
    and three: "fst (check_block rootcmd_env 98 fresh_world) = Inr ()
       \<and> (\<exists>evs. trace (snd (check_block rootcmd_env 98 fresh_world))
                   = trace fresh_world @ GetOps 98 # evs
              \<and> list_all is_content_read evs)
       \<and> tables (snd (check_block rootcmd_env 98 fresh_world)) = tables fresh_world"
    by blast+
  from only_replies_with_mention_are_handled [of demo_env fresh_world ?raw' command_post 98] b
  have two: "check_op demo_env (''comment'', ?raw') fresh_world
               = handle_command demo_env command_post
                   (emit (GetContent (raw_author ?raw', raw_permlink ?raw')) fresh_world)"
    by blast
  from one two three a b c m show ?thesis
    by simp
qed

section \<open>The upvote table is read and never written\<close>

text \<open>
  C4 against the code. A welcome command on a root post, with the vote accepted: the bot
  replies, votes and writes the row of the table \<^verbatim>\<open>welcome\<close>, and the table \<^verbatim>\<open>upvote\<close>
  is as empty as before, since \<^verbatim>\<open>upvote\<close> only reads it. An upvote step for the same post
  right after finds no row and votes a second time.
\<close>

theorem upvote_record_never_written:
  "is_main_post root_post
   \<and> vote_at demo_env 2 (identifier_of root_post) = Inr True
   \<and> handle_command demo_env command_post fresh_world
       = (Inr (), insert_row ''welcome''
            \<lparr>row_author = ''alice'', row_permlink = ''intro'',
             created_at = ''2018-02-01 12:00:00''\<rparr>
            (emit (Log INFO ''Replied and upvoted user: %s'' [ArgStr ''alice''])
              (emit (Vote (''alice'', ''intro'') 80 ''bot'')
                (emit (Reply (''alice'', ''intro'') ''Welcome to the community, alice!'' ''bot'')
                  (emit (GetContent (''alice'', ''intro'')) fresh_world)))))
   \<and> tables (snd (handle_command demo_env command_post fresh_world)) ''upvote'' = []
   \<and> trace (snd (upvote demo_env root_post
                    (snd (handle_command demo_env command_post fresh_world))))
       = [GetContent (''alice'', ''intro''),
          Reply (''alice'', ''intro'') ''Welcome to the community, alice!'' ''bot'',
          Vote (''alice'', ''intro'') 80 ''bot'',
          Log INFO ''Replied and upvoted user: %s'' [ArgStr ''alice''],
          Insert ''welcome'' \<lparr>row_author = ''alice'', row_permlink = ''intro'',
             created_at = ''2018-02-01 12:00:00''\<rparr>,
          Vote (''alice'', ''intro'') 80 ''bot'']"
  by (simp add: demo_handle_command upvote_def find_one_def identifier_of_def)

lemma deleted_head [simp]: "last_block_num deleted_env w = (Inr 100, emit GetProps w)"
  by (simp add: last_block_num_def properties_ok)

lemma deleted_process_plain:
  "n \<noteq> 98 \<Longrightarrow>
   process_block deleted_env n 0 w
     = (Inr (), dump_state [(''head_block_number'', 100)]
          (emit GetProps (emit (GetOps n)
            (emit (Log INFO ''Processing block: %s'' [ArgInt n]) (emit (GetBlock n) w)))))"
  by (simp add: process_block_found process_rest_def check_block_def properties_ok)

lemma deleted_process_98:
  "process_block deleted_env 98 0 w
     = (Inl PostDoesNotExist,
        emit (GetContent (''alice'', ''intro''))
          (emit (GetContent (''carol'', ''re-intro''))
            (emit (GetOps 98)
              (emit (Log INFO ''Processing block: %s'' [ArgInt 98]) (emit (GetBlock 98) w)))))"
  by (simp add: process_block_found process_rest_def check_block_def check_op_def Post_def
      handle_command_def)

section \<open>A welcome command whose root post is gone\<close>

text \<open>
  C2 against the code. Head 100, checkpoint 95, and in block 98 a reply with a welcome
  command whose root post no longer exists. \<^verbatim>\<open>Post(post.root_identifier)\<close> in
  \<^verbatim>\<open>handle_command\<close> raises PostDoesNotExist, nothing catches it, and the loop ends with
  that exception in block 98, the checkpoint at 97, however many turns it is given.
\<close>

theorem missing_root_post_ends_the_loop:
  "fst (listen deleted_env (3 + m) fresh_world) = Some PostDoesNotExist
   \<and> fetched (trace (snd (listen deleted_env (3 + m) fresh_world))) = [96, 97, 98]
   \<and> last (trace (snd (listen deleted_env (3 + m) fresh_world))) = GetContent (''alice'', ''intro'')
   \<and> checkpoint_file (snd (listen deleted_env (3 + m) fresh_world)) = Some 97"
proof -
  have three: "3 + m = Suc (Suc (Suc m))"
    by simp
  show ?thesis
    unfolding three
    by (simp add: listen_def run_def load_checkpoint_def deleted_process_plain
        deleted_process_98)
qed

lemma not_welcomed_other_author:
  "a \<in> row_author ` set (tables w ''welcome'') \<Longrightarrow> already_welcomed w main_post = None
   \<Longrightarrow> author main_post \<noteq> a"
  by (auto simp: already_welcomed_def find_one_def find_None_iff)

lemma upvote_emits_on:
  assumes "\<And>l s a. P (Log l s a)" "\<And>x a. P (Vote (identifier_of p) x a)" "emits P w w1"
  shows "emits P w (snd (upvote env p w1))"
  by (auto simp: upvote_def Let_def split: option.splits sum.splits intro!: emits_emit assms)

lemma handle_command_welcomed:
  assumes "a \<in> row_author ` set (tables w1 ''welcome'')"
    and "emits (\<lambda>e. \<not> acts_on a e) w w1"
  shows "emits (\<lambda>e. \<not> acts_on a e) w (snd (handle_command env p w1))"
    and "a \<in> row_author ` set (tables (snd (handle_command env p w1)) ''welcome'')"
proof -
  have other: "author main_post \<noteq> a"
    if "already_welcomed (emit (GetContent (root_identifier p)) w1) main_post = None"
    for main_post
    using not_welcomed_other_author [OF _ that] assms(1) by simp
  show "emits (\<lambda>e. \<not> acts_on a e) w (snd (handle_command env p w1))"
    using assms(2) other
    by (auto simp: handle_command_def Let_def case_prod_unfold identifier_of_def
        split: option.splits sum.splits intro!: emits_emit emits_insert upvote_emits_on)
  show "a \<in> row_author ` set (tables (snd (handle_command env p w1)) ''welcome'')"
    using assms(1)
    by (auto simp: handle_command_def Let_def case_prod_unfold upvote_frame
        split: option.splits sum.splits)
qed

lemma check_op_welcomed:
  assumes "a \<in> row_author ` set (tables w1 ''welcome'')"
    and "emits (\<lambda>e. \<not> acts_on a e) w w1"
  shows "emits (\<lambda>e. \<not> acts_on a e) w (snd (check_op env operation w1))"
    and "a \<in> row_author ` set (tables (snd (check_op env operation w1)) ''welcome'')"
proof -
  have next_world: "emits (\<lambda>e. \<not> acts_on a e) w (emit (GetContent i) w1)" for i
    using assms(2) by (intro emits_emit) simp_all
  have tab: "a \<in> row_author ` set (tables (emit (GetContent i) w1) ''welcome'')" for i
    using assms(1) by simp
  show "emits (\<lambda>e. \<not> acts_on a e) w (snd (check_op env operation w1))"
    using assms(2) next_world handle_command_welcomed(1) [OF tab next_world]
    by (auto simp: check_op_def case_prod_unfold split: sum.splits)
  show "a \<in> row_author ` set (tables (snd (check_op env operation w1)) ''welcome'')"
    using assms(1) handle_command_welcomed(2) [OF tab next_world]
    by (auto simp: check_op_def case_prod_unfold split: sum.splits)
qed

lemma check_ops_welcomed:
  "a \<in> row_author ` set (tables w1 ''welcome'') \<Longrightarrow> emits (\<lambda>e. \<not> acts_on a e) w w1 \<Longrightarrow>
   emits (\<lambda>e. \<not> acts_on a e) w (snd (check_ops env ops w1))
   \<and> a \<in> row_author ` set (tables (snd (check_ops env ops w1)) ''welcome'')"
proof (induction ops arbitrary: w1)
  case Nil
  then show ?case by simp
next
  case (Cons operation rest)
  note one = check_op_welcomed [OF Cons.prems, of env operation]
  from Cons.IH [OF one(2) one(1)] one show ?case
    by (auto simp: case_prod_unfold split: sum.splits)
qed

lemma process_rest_welcomed:
  assumes "a \<in> row_author ` set (tables w1 ''welcome'')"
    and "emits (\<lambda>e. \<not> acts_on a e) w w1"
  shows "emits (\<lambda>e. \<not> acts_on a e) w (snd (process_rest env n bd w1))
     \<and> a \<in> row_author ` set (tables (snd (process_rest env n bd w1)) ''welcome'')"
proof -
  let ?w2 = "emit (GetOps n) (emit (Log INFO ''Processing block: %s'' [ArgInt n]) w1)"
  let ?w3 = "snd (check_block env n (emit (Log INFO ''Processing block: %s'' [ArgInt n]) w1))"
  have e2: "emits (\<lambda>e. \<not> acts_on a e) w ?w2"
    using assms(2) by (intro emits_emit) simp_all
  have t2: "a \<in> row_author ` set (tables ?w2 ''welcome'')"
    using assms(1) by simp
  have c: "emits (\<lambda>e. \<not> acts_on a e) w ?w3
     \<and> a \<in> row_author ` set (tables ?w3 ''welcome'')"
    using check_ops_welcomed [OF t2 e2] by (simp add: check_block_def)
  have p: "emits (\<lambda>e. \<not> acts_on a e) w (snd (properties d env ?w3))" for d
    using c by (intro properties_emits') simp_all
  have d: "emits (\<lambda>e. \<not> acts_on a e) w (dump_state x (snd (properties d env ?w3)))" for d x
    using p [of d] by (auto simp: emits_def)
  have l: "emits (\<lambda>e. \<not> acts_on a e) w (emit (Log INFO ''Processing block: %s'' [ArgInt n]) w1)"
    using assms(2) by (intro emits_emit) simp_all
  show ?thesis
    using assms(1) c p d l
    by (auto simp: process_rest_def Let_def case_prod_unfold properties_frame
        split: option.splits sum.splits)
qed

lemma process_block_welcomed:
  "a \<in> row_author ` set (tables w1 ''welcome'') \<Longrightarrow> emits (\<lambda>e. \<not> acts_on a e) w w1 \<Longrightarrow>
   emits (\<lambda>e. \<not> acts_on a e) w (snd (process_block env n rc w1))
   \<and> a \<in> row_author ` set (tables (snd (process_block env n rc w1)) ''welcome'')"
proof (induction env n rc w1 rule: process_block.induct)
  case (1 env block_num retry_count w1)
  let ?Q = "\<lambda>e. \<not> acts_on a e"
  have fetch: "emits ?Q w (emit (GetBlock block_num) w1)"
    using "1.prems"(2) by (intro emits_emit) simp_all
  have ftab: "a \<in> row_author ` set (tables (emit (GetBlock block_num) w1) ''welcome'')"
    using "1.prems"(1) by simp
  show ?case
  proof (cases "falsy (block_at env (moment w1) block_num)")
    case False
    then show ?thesis
      using process_rest_welcomed [OF ftab fetch] by (simp add: process_block_found)
  next
    case True
    show ?thesis
    proof (cases "retry_count > 3")
      case True
      have "emits ?Q w (emit (Log ERROR ''Retried 3 times to get this block: %s Skipping.''
                [ArgInt block_num]) (emit (GetBlock block_num) w1))"
        using "1.prems"(2) by (intro emits_emit) simp_all
      with True \<open>falsy _\<close> "1.prems"(1) show ?thesis
        by (simp add: process_block_skip)
    next
      case False
      let ?w2 = "emit (Log ERROR ''Couldnt read the block: %s. Retrying.'' [ArgInt block_num])
                (emit (GetBlock block_num) w1)"
      have e2: "emits ?Q w ?w2"
        using "1.prems"(2) by (intro emits_emit) simp_all
      have t2: "a \<in> row_author ` set (tables ?w2 ''welcome'')"
        using "1.prems"(1) by simp
      note rec = "1.IH" [OF True False t2 e2]
      from rec process_rest_welcomed [of a _ w env block_num]
      show ?thesis
        using True False
        by (simp add: process_block_retry case_prod_unfold split: sum.splits)
    qed
  qed
qed

section \<open>Processing a unit again after the welcome record is committed\<close>

text \<open>
  C5. Let a unit have been processed, and let the table \<^verbatim>\<open>welcome\<close> then hold a row \<open>r\<close>
  (the Dedup Record the command of the unit committed). When the same unit is processed
  a second time, after a restart or on purpose, and whatever the node answers then, the
  events of the second pass contain no reply to and no vote on any post of the author of
  \<open>r\<close>, so none on the post \<open>(row_author r, row_permlink r)\<close>.
\<close>

theorem no_second_reply_or_vote:
  assumes "process_block env n 0 w0 = (r1, w1)"
    and "r \<in> set (tables w1 ''welcome'')"
  shows "\<exists>evs. trace (snd (process_block env' n 0 w1)) = trace w1 @ evs
     \<and> filter (acts_on (row_author r)) evs = []"
proof -
  have "row_author r \<in> row_author ` set (tables w1 ''welcome'')"
    using assms(2) by simp
  then have "emits (\<lambda>e. \<not> acts_on (row_author r) e) w1 (snd (process_block env' n 0 w1))"
    using process_block_welcomed [of "row_author r" w1 w1 env' n 0] by simp
  then show ?thesis
    by (auto simp: emits_def filter_empty_conv list_all_iff)
qed

theorem no_second_reply_or_vote_witness:
  "process_block demo_env 98 0 fresh_world
     = (Inr (), snd (process_block demo_env 98 0 fresh_world))
   \<and> filter (acts_on ''alice'') (trace (snd (process_block demo_env 98 0 fresh_world)))
       = [Reply (''alice'', ''intro'') ''Welcome to the community, alice!'' ''bot'',
          Vote (''alice'', ''intro'') 80 ''bot'']
   \<and> \<lparr>row_author = ''alice'', row_permlink = ''intro'', created_at = ''2018-02-01 12:00:00''\<rparr>
       \<in> set (tables (snd (process_block demo_env 98 0 fresh_world)) ''welcome'')
   \<and> (\<exists>evs. trace (snd (process_block demo_env 98 0 (snd (process_block demo_env 98 0 fresh_world))))
               = trace (snd (process_block demo_env 98 0 fresh_world)) @ evs
          \<and> filter (acts_on ''alice'') evs = [])"
proof -
  let ?r = "\<lparr>row_author = ''alice'', row_permlink = ''intro'',
              created_at = ''2018-02-01 12:00:00''\<rparr>"
  have first: "process_block demo_env 98 0 fresh_world
                 = (Inr (), snd (process_block demo_env 98 0 fresh_world))"
    by (simp add: demo_process_98)
  have acted: "filter (acts_on ''alice'') (trace (snd (process_block demo_env 98 0 fresh_world)))
       = [Reply (''alice'', ''intro'') ''Welcome to the community, alice!'' ''bot'',
          Vote (''alice'', ''intro'') 80 ''bot'']"
    by (simp add: demo_process_98)
  have row: "?r \<in> set (tables (snd (process_block demo_env 98 0 fresh_world)) ''welcome'')"
    by (simp add: demo_process_98)
  from no_second_reply_or_vote [OF first row, of demo_env] first acted row show ?thesis
    by simp
qed

end
